theory Spec2Isabelle
  imports Complex_Main
begin

section \<open>Errors\<close>

text \<open>
  The source's error classes (\<^verbatim>\<open>ClientError\<close>, \<^verbatim>\<open>ChessError\<close>, both
  carrying a message) and errors handed over by the socket library (\<^verbatim>\<open>SocketError\<close>).
  Every \<^verbatim>\<open>throw\<close> of the source is an \<open>Inl\<close> of the model.
\<close>

datatype error = ClientError string | ChessError string | SocketError string | TypeError string

fun message :: "error \<Rightarrow> string" where
  "message (ClientError m) = m"
| "message (ChessError m) = m"
| "message (SocketError m) = m"
| "message (TypeError m) = m"

text \<open>Numbers in messages: the decimal digits of an integer.\<close>

definition digit_char :: "nat \<Rightarrow> char" where
  "digit_char d =
     (if d = 0 then CHR ''0'' else if d = 1 then CHR ''1'' else if d = 2 then CHR ''2''
      else if d = 3 then CHR ''3'' else if d = 4 then CHR ''4'' else if d = 5 then CHR ''5''
      else if d = 6 then CHR ''6'' else if d = 7 then CHR ''7'' else if d = 8 then CHR ''8''
      else CHR ''9'')"

fun show_nat :: "nat \<Rightarrow> string" where
  "show_nat n =
     (if n < 10 then [digit_char n]
      else show_nat (n div 10) @ [digit_char (n mod 10)])"

declare show_nat.simps [simp del]

definition show_int :: "int \<Rightarrow> string" where
  "show_int i = (if i < 0 then CHR ''-'' # show_nat (nat (- i)) else show_nat (nat i))"

section \<open>Pieces\<close>

datatype PieceType =
    PIECE_TYPE_PAWN | PIECE_TYPE_KNIGHT | PIECE_TYPE_BISHOP | PIECE_TYPE_ROOK
  | PIECE_TYPE_QUEEN | PIECE_TYPE_KING | PIECE_TYPE_PROMOTED_PAWN

datatype MoveType = MOVE_TYPE_NORMAL | MOVE_TYPE_CASTLE | MOVE_TYPE_EN_PASSANT

text \<open>
  \<^verbatim>\<open>_color\<close> is \<^verbatim>\<open>Number(data.isWhite)\<close>: 0 is black, 1 is white
  (\<^verbatim>\<open>Piece._validColors = ["black", "white"]\<close>).
\<close>

datatype PieceColor = black | white

fun colorNum :: "PieceColor \<Rightarrow> int" where
  "colorNum black = 0"
| "colorNum white = 1"

text \<open>
  A piece: integer position, identity, type, colour and the two counters. The server's
  boolean flags are not read by any function modelled here.
\<close>

record Piece =
  piece_x :: int
  piece_y :: int
  piece_id :: nat
  piece_type :: PieceType
  piece_color :: PieceColor
  moveCount :: nat
  captureCount :: nat

definition maxMoveDistance :: real where
  "maxMoveDistance = 25"

text \<open>
  \<^verbatim>\<open>Board.distance(x1, y1, x2, y2, floor = true)\<close>: JavaScript numbers are modelled
  as reals; with \<open>floor\<close> the four arguments are floored first.
\<close>

definition Board_distance :: "real \<Rightarrow> real \<Rightarrow> real \<Rightarrow> real \<Rightarrow> bool \<Rightarrow> real" where
  "Board_distance x1 y1 x2 y2 fl =
     (let x1' = (if fl then of_int \<lfloor>x1\<rfloor> else x1);
          y1' = (if fl then of_int \<lfloor>y1\<rfloor> else y1);
          x2' = (if fl then of_int \<lfloor>x2\<rfloor> else x2);
          y2' = (if fl then of_int \<lfloor>y2\<rfloor> else y2);
          dx = x2' - x1';
          dy = y2' - y1'
      in max \<bar>dx\<bar> \<bar>dy\<bar>)"

text \<open>
  \<^verbatim>\<open>Piece.canMoveTo(x, y, moveType)\<close>. The destination is any number and is floored;
  the first \<^verbatim>\<open>switch\<close> returns for a castle, returns \<open>False\<close> for an en-passant of
  a piece that is not a pawn, and otherwise falls through to the second one. The
  pawn's \<open>direction\<close> is set for the colours 0 and 1 and is \<^verbatim>\<open>undefined\<close> (\<open>None\<close>,
  equal to no number) otherwise.
\<close>

definition canMoveTo :: "Piece \<Rightarrow> real \<Rightarrow> real \<Rightarrow> MoveType \<Rightarrow> bool" where
  "canMoveTo p x y moveType =
     (let x1 = piece_x p; y1 = piece_y p; x2 = \<lfloor>x\<rfloor>; y2 = \<lfloor>y\<rfloor>;
          dist = Board_distance (of_int x1) (of_int y1) (of_int x2) (of_int y2) False
      in if dist > maxMoveDistance then False
         else
           let dx = x2 - x1; dy = y2 - y1
           in if dx = 0 \<and> dy = 0 then False
              else if moveType = MOVE_TYPE_CASTLE then
                (if piece_type p \<noteq> PIECE_TYPE_KING then False else \<bar>dx\<bar> = 2 \<and> dy = 0)
              else if moveType = MOVE_TYPE_EN_PASSANT \<and> piece_type p \<noteq> PIECE_TYPE_PAWN then False
              else
                (case piece_type p of
                   PIECE_TYPE_PAWN \<Rightarrow>
                     (let firstMove = (moveCount p < 1);
                          direction = (if colorNum (piece_color p) = 0 then Some 1
                                       else if colorNum (piece_color p) = 1 then Some (- 1)
                                       else None)
                      in if dx = 0 then
                           Some dy = direction
                           \<or> (firstMove \<and> Some dy = map_option (\<lambda>d. 2 * d) direction)
                         else if \<bar>dx\<bar> = 1 \<and> Some dy = direction then True
                         else False)
                 | PIECE_TYPE_KNIGHT \<Rightarrow>
                     (let d1 = (\<bar>dx\<bar> = 2 \<and> \<bar>dy\<bar> = 1);
                          d2 = (\<bar>dx\<bar> = 1 \<and> \<bar>dy\<bar> = 2)
                      in d1 \<or> d2)
                 | PIECE_TYPE_BISHOP \<Rightarrow> \<bar>dx\<bar> = \<bar>dy\<bar>
                 | PIECE_TYPE_ROOK \<Rightarrow> dx = 0 \<or> dy = 0
                 | PIECE_TYPE_QUEEN \<Rightarrow> dx = 0 \<or> dy = 0 \<or> \<bar>dx\<bar> = \<bar>dy\<bar>
                 | PIECE_TYPE_PROMOTED_PAWN \<Rightarrow> dx = 0 \<or> dy = 0 \<or> \<bar>dx\<bar> = \<bar>dy\<bar>
                 | PIECE_TYPE_KING \<Rightarrow> dist = 1))"

subsection \<open>The documented rule table\<close>

text \<open>
  The rule table as the specification words it, over the floored delta
  \<open>(dx, dy)\<close>; \<open>spec_forward\<close> is the colour's forward direction.
\<close>

definition chebyshev :: "int \<Rightarrow> int \<Rightarrow> int" where
  "chebyshev dx dy = max \<bar>dx\<bar> \<bar>dy\<bar>"

fun spec_forward :: "PieceColor \<Rightarrow> int" where
  "spec_forward black = 1"
| "spec_forward white = - 1"

definition spec_rook_rule :: "int \<Rightarrow> int \<Rightarrow> bool" where
  "spec_rook_rule dx dy = (dx = 0 \<or> dy = 0)"

definition spec_bishop_rule :: "int \<Rightarrow> int \<Rightarrow> bool" where
  "spec_bishop_rule dx dy = (\<bar>dx\<bar> = \<bar>dy\<bar>)"

definition spec_pawn_rule :: "PieceColor \<Rightarrow> nat \<Rightarrow> int \<Rightarrow> int \<Rightarrow> bool" where
  "spec_pawn_rule c mc dx dy =
     ((dx = 0 \<and> dy = spec_forward c)
      \<or> (dx = 0 \<and> dy = 2 * spec_forward c \<and> mc < 1)
      \<or> (\<bar>dx\<bar> = 1 \<and> dy = spec_forward c))"

fun spec_type_rule :: "PieceType \<Rightarrow> PieceColor \<Rightarrow> nat \<Rightarrow> int \<Rightarrow> int \<Rightarrow> bool" where
  "spec_type_rule PIECE_TYPE_PAWN c mc dx dy = spec_pawn_rule c mc dx dy"
| "spec_type_rule PIECE_TYPE_KNIGHT c mc dx dy =
     ((\<bar>dx\<bar>, \<bar>dy\<bar>) = (2, 1) \<or> (\<bar>dx\<bar>, \<bar>dy\<bar>) = (1, 2))"
| "spec_type_rule PIECE_TYPE_BISHOP c mc dx dy = spec_bishop_rule dx dy"
| "spec_type_rule PIECE_TYPE_ROOK c mc dx dy = spec_rook_rule dx dy"
| "spec_type_rule PIECE_TYPE_QUEEN c mc dx dy = (spec_rook_rule dx dy \<or> spec_bishop_rule dx dy)"
| "spec_type_rule PIECE_TYPE_PROMOTED_PAWN c mc dx dy =
     (spec_rook_rule dx dy \<or> spec_bishop_rule dx dy)"
| "spec_type_rule PIECE_TYPE_KING c mc dx dy = (chebyshev dx dy = 1)"

fun spec_legal :: "PieceType \<Rightarrow> PieceColor \<Rightarrow> nat \<Rightarrow> int \<Rightarrow> int \<Rightarrow> MoveType \<Rightarrow> bool" where
  "spec_legal t c mc dx dy mt =
     (if chebyshev dx dy > 25 then False
      else if dx = 0 \<and> dy = 0 then False
      else (case mt of
              MOVE_TYPE_CASTLE \<Rightarrow> t = PIECE_TYPE_KING \<and> \<bar>dx\<bar> = 2 \<and> dy = 0
            | MOVE_TYPE_EN_PASSANT \<Rightarrow> t = PIECE_TYPE_PAWN \<and> spec_pawn_rule c mc dx dy
            | MOVE_TYPE_NORMAL \<Rightarrow> spec_type_rule t c mc dx dy))"

section \<open>JavaScript maps\<close>

text \<open>
  A JavaScript \<^verbatim>\<open>Map\<close> iterates in insertion order, and \<^verbatim>\<open>getById\<close> depends on
  that order, so a map is an association list: \<^verbatim>\<open>set\<close> replaces the value of a key
  that is present where it stands and appends a new key at the end, \<^verbatim>\<open>delete\<close>
  removes the key, \<^verbatim>\<open>get\<close> and \<^verbatim>\<open>has\<close> look the key up.
\<close>

fun Map_set :: "'k \<Rightarrow> 'v \<Rightarrow> ('k \<times> 'v) list \<Rightarrow> ('k \<times> 'v) list" where
  "Map_set k v [] = [(k, v)]"
| "Map_set k v (e # m) = (if fst e = k then (k, v) # m else e # Map_set k v m)"

fun Map_delete :: "'k \<Rightarrow> ('k \<times> 'v) list \<Rightarrow> ('k \<times> 'v) list" where
  "Map_delete k [] = []"
| "Map_delete k (e # m) = (if fst e = k then Map_delete k m else e # Map_delete k m)"

fun Map_get :: "('k \<times> 'v) list \<Rightarrow> 'k \<Rightarrow> 'v option" where
  "Map_get [] k = None"
| "Map_get (e # m) k = (if fst e = k then Some (snd e) else Map_get m k)"

definition Map_has :: "('k \<times> 'v) list \<Rightarrow> 'k \<Rightarrow> bool" where
  "Map_has m k = (Map_get m k \<noteq> None)"

section \<open>The board\<close>

text \<open>
  The board is a map from coordinate keys to pieces, with a centre and the bounds of
  the viewport; the centre and the bounds are \<^verbatim>\<open>null\<close> (\<open>None\<close>) until a centre is set.
  Coordinates handed to the board are integers (the wire format's are, and
  \<^verbatim>\<open>_validateCenterCoords\<close> refuses a centre that is not): on them \<^verbatim>\<open>Math.floor\<close>
  is the identity, and the key \<^verbatim>\<open>`${x},${y}`\<close> is the pair \<open>(x, y)\<close>.
\<close>

record Board =
  board_length :: int
  radius :: int
  centerX :: "int option"
  centerY :: "int option"
  leftX :: "int option"
  topY :: "int option"
  rightX :: "int option"
  bottomY :: "int option"
  store :: "((int \<times> int) \<times> Piece) list"

text \<open>In a comparison or a subtraction JavaScript reads \<^verbatim>\<open>null\<close> as 0.\<close>

fun num :: "int option \<Rightarrow> int" where
  "num None = 0"
| "num (Some v) = v"

definition boardSize :: int where "boardSize = 8"
definition totalSize :: int where "totalSize = 8000"
definition minPieceCoords :: int where "minPieceCoords = 0"
definition maxPieceCoords :: int where "maxPieceCoords = totalSize - 1"
definition minCenterCoords :: int where "minCenterCoords = boardSize div 4"
definition maxCenterCoords :: int where "maxCenterCoords = totalSize - boardSize div 2 + 1"

definition static_pieceInBounds :: "int \<Rightarrow> int \<Rightarrow> bool" where
  "static_pieceInBounds x y =
     (x \<ge> minPieceCoords \<and> y \<ge> minPieceCoords \<and> x \<le> maxPieceCoords \<and> y \<le> maxPieceCoords)"

definition Board__pieceInBounds :: "Board \<Rightarrow> int \<Rightarrow> int \<Rightarrow> bool" where
  "Board__pieceInBounds b x y =
     (x \<ge> num (leftX b) \<and> y \<ge> num (topY b) \<and> x \<le> num (rightX b) \<and> y \<le> num (bottomY b))"

definition Board_pieceInBounds :: "Board \<Rightarrow> int \<Rightarrow> int \<Rightarrow> bool" where
  "Board_pieceInBounds b x y = (static_pieceInBounds x y \<and> Board__pieceInBounds b x y)"

definition getCoordsKey :: "int \<Rightarrow> int \<Rightarrow> int \<times> int" where
  "getCoordsKey x y = (x, y)"

definition Board_has :: "Board \<Rightarrow> int \<Rightarrow> int \<Rightarrow> bool \<Rightarrow> bool" where
  "Board_has b x y validate =
     (if validate \<and> \<not> Board_pieceInBounds b x y then False
      else Map_has (store b) (getCoordsKey x y))"

definition Board_get :: "Board \<Rightarrow> int \<Rightarrow> int \<Rightarrow> bool \<Rightarrow> Piece option" where
  "Board_get b x y validate =
     (if validate \<and> \<not> Board_pieceInBounds b x y then None
      else Map_get (store b) (getCoordsKey x y))"

text \<open>\<^verbatim>\<open>Board.set\<close> of a piece that is already a \<^verbatim>\<open>Piece\<close>.\<close>

definition Board_set :: "Board \<Rightarrow> int \<Rightarrow> int \<Rightarrow> Piece \<Rightarrow> bool \<Rightarrow> Board" where
  "Board_set b x y piece validate =
     (if validate \<and> \<not> Board_pieceInBounds b x y then b
      else b\<lparr>store := Map_set (getCoordsKey x y) piece (store b)\<rparr>)"

text \<open>
  The data of a piece as a message carries it, and \<^verbatim>\<open>new Piece(x, y, data)\<close>, which
  \<^verbatim>\<open>Board.set\<close> calls on a value that is not a \<^verbatim>\<open>Piece\<close>.
\<close>

record PieceData =
  data_id :: nat
  data_type :: PieceType
  data_isWhite :: bool
  data_moveCount :: nat
  data_captureCount :: nat

definition new_Piece :: "int \<Rightarrow> int \<Rightarrow> PieceData \<Rightarrow> Piece" where
  "new_Piece x y d =
     \<lparr>piece_x = x, piece_y = y, piece_id = data_id d, piece_type = data_type d,
      piece_color = (if data_isWhite d then white else black),
      moveCount = data_moveCount d, captureCount = data_captureCount d\<rparr>"

definition Board_set_data :: "Board \<Rightarrow> int \<Rightarrow> int \<Rightarrow> PieceData \<Rightarrow> bool \<Rightarrow> Board" where
  "Board_set_data b x y d validate =
     (if validate \<and> \<not> Board_pieceInBounds b x y then b
      else b\<lparr>store := Map_set (getCoordsKey x y) (new_Piece x y d) (store b)\<rparr>)"

definition Board_delete :: "Board \<Rightarrow> int \<Rightarrow> int \<Rightarrow> bool \<Rightarrow> Board" where
  "Board_delete b x y validate =
     (if validate \<and> \<not> Board_pieceInBounds b x y then b
      else b\<lparr>store := Map_delete (getCoordsKey x y) (store b)\<rparr>)"

text \<open>\<^verbatim>\<open>getById\<close>: the first piece with the id, in the map's iteration order.\<close>

fun getById_from :: "((int \<times> int) \<times> Piece) list \<Rightarrow> nat \<Rightarrow> Piece option" where
  "getById_from [] i = None"
| "getById_from (e # m) i = (if piece_id (snd e) = i then Some (snd e) else getById_from m i)"

definition Board_getById :: "Board \<Rightarrow> nat \<Rightarrow> Piece option" where
  "Board_getById b i = getById_from (store b) i"

definition Piece_move :: "Piece \<Rightarrow> int \<Rightarrow> int \<Rightarrow> Piece" where
  "Piece_move p x y = p\<lparr>piece_x := x, piece_y := y, moveCount := moveCount p + 1\<rparr>"

definition Piece_capture :: "Piece \<Rightarrow> int \<Rightarrow> int \<Rightarrow> Piece" where
  "Piece_capture p x y = p\<lparr>piece_x := x, piece_y := y, captureCount := captureCount p + 1\<rparr>"

definition show_coords :: "int \<Rightarrow> int \<Rightarrow> string" where
  "show_coords x y = show_int x @ '', '' @ show_int y"

definition Board__validatePieceMove :: "Board \<Rightarrow> Piece \<Rightarrow> int \<Rightarrow> int \<Rightarrow> MoveType \<Rightarrow> error + unit" where
  "Board__validatePieceMove b piece toX toY ty =
     (if \<not> Board_pieceInBounds b (piece_x piece) (piece_y piece) then
        Inl (ChessError ''Can't move piece that's outside of board bounds'')
      else if \<not> Board_pieceInBounds b toX toY then
        Inl (ChessError ''Can't move piece to outside of board bounds'')
      else if \<not> canMoveTo piece (of_int toX) (of_int toY) ty then
        Inl (ChessError (''Can't move piece to: '' @ show_coords toX toY))
      else Inr ())"

text \<open>
  \<^verbatim>\<open>Board.movePiece(piece, toX, toY, type, capture, validate)\<close>. The piece is mutated in
  place and returned; the model returns the board and the piece. Without validation a
  \<^verbatim>\<open>null\<close> piece fails at \<^verbatim>\<open>piece.move\<close> with a \<^verbatim>\<open>TypeError\<close>, after a
  \<^verbatim>\<open>delete\<close> of a key no piece is stored under.
\<close>

definition Board_movePiece ::
  "Board \<Rightarrow> Piece option \<Rightarrow> int \<Rightarrow> int \<Rightarrow> MoveType \<Rightarrow> bool \<Rightarrow> bool \<Rightarrow> error + (Board \<times> Piece)" where
  "Board_movePiece b piece toX toY ty capture validate =
     (case piece of
        None \<Rightarrow>
          (if validate then Inl (ChessError ''No piece provided'')
           else Inl (TypeError ''Cannot read properties of null''))
      | Some p \<Rightarrow>
          (case (if validate then Board__validatePieceMove b p toX toY ty else Inr ()) of
             Inl e \<Rightarrow> Inl e
           | Inr _ \<Rightarrow>
               (let b1 = Board_delete b (piece_x p) (piece_y p) validate;
                    p' = (if capture \<or> Board_has b1 toX toY validate
                          then Piece_capture p toX toY
                          else Piece_move p toX toY);
                    b2 = Board_set b1 toX toY p' validate
                in Inr (b2, p'))))"

text \<open>
  \<^verbatim>\<open>capturePiece(piece, validate)\<close>; without validation a \<^verbatim>\<open>null\<close> piece deletes
  the key of \<^verbatim>\<open>undefined\<close> coordinates, which no piece is stored under.
\<close>

definition Board_capturePiece :: "Board \<Rightarrow> Piece option \<Rightarrow> bool \<Rightarrow> error + (Board \<times> Piece option)" where
  "Board_capturePiece b piece validate =
     (case piece of
        None \<Rightarrow> (if validate then Inl (ChessError ''No piece provided'') else Inr (b, None))
      | Some p \<Rightarrow> Inr (Board_delete b (piece_x p) (piece_y p) validate, Some p))"

text \<open>
  \<^verbatim>\<open>_performAction(getter, action, args, argsCount)\<close>, applied to \<^verbatim>\<open>capturePiece\<close> and
  to \<^verbatim>\<open>movePiece\<close>; \<open>validate\<close> is \<^verbatim>\<open>args[argsCount - 1] ?? true\<close>.
\<close>

definition Board_captureOnPosition :: "Board \<Rightarrow> int \<Rightarrow> int \<Rightarrow> bool \<Rightarrow> error + (Board \<times> Piece option)" where
  "Board_captureOnPosition b x y validate =
     (let piece = Board_get b x y True
      in if validate \<and> piece = None then Inl (ChessError ''No piece at starting position'')
         else Board_capturePiece b piece validate)"

definition Board_captureWithId :: "Board \<Rightarrow> nat \<Rightarrow> bool \<Rightarrow> error + (Board \<times> Piece option)" where
  "Board_captureWithId b i validate =
     (let piece = Board_getById b i
      in if validate \<and> piece = None then Inl (ChessError ''No piece at starting position'')
         else Board_capturePiece b piece validate)"

definition Board_moveFromPosition ::
  "Board \<Rightarrow> int \<Rightarrow> int \<Rightarrow> int \<Rightarrow> int \<Rightarrow> MoveType \<Rightarrow> bool \<Rightarrow> bool \<Rightarrow> error + (Board \<times> Piece)" where
  "Board_moveFromPosition b fromX fromY toX toY ty capture validate =
     (let piece = Board_get b fromX fromY True
      in if validate \<and> piece = None then Inl (ChessError ''No piece at starting position'')
         else Board_movePiece b piece toX toY ty capture validate)"

definition Board_moveWithId ::
  "Board \<Rightarrow> nat \<Rightarrow> int \<Rightarrow> int \<Rightarrow> MoveType \<Rightarrow> bool \<Rightarrow> bool \<Rightarrow> error + (Board \<times> Piece)" where
  "Board_moveWithId b i toX toY ty capture validate =
     (let piece = Board_getById b i
      in if validate \<and> piece = None then Inl (ChessError ''No piece at starting position'')
         else Board_movePiece b piece toX toY ty capture validate)"

definition Board__initCoords :: "Board \<Rightarrow> Board" where
  "Board__initCoords b =
     b\<lparr>centerX := None, centerY := None, leftX := None, topY := None,
       rightX := None, bottomY := None\<rparr>"

definition Board_clear :: "Board \<Rightarrow> Board" where
  "Board_clear b = Board__initCoords (b\<lparr>store := []\<rparr>)"

text \<open>
  \<^verbatim>\<open>Board._validateCenterCoords(x, y, msgType)\<close>; a coordinate that is \<^verbatim>\<open>null\<close>
  is not checked.
\<close>

definition center_errors :: "string \<Rightarrow> int option \<Rightarrow> string list" where
  "center_errors name v =
     (case v of
        None \<Rightarrow> []
      | Some c \<Rightarrow> (if c < minCenterCoords \<or> c > maxCenterCoords
                   then [name @ ''='' @ show_int c] else []))"

fun join_comma :: "string list \<Rightarrow> string" where
  "join_comma [] = []"
| "join_comma [a] = a"
| "join_comma (a # b # r) = a @ '', '' @ join_comma (b # r)"

definition Board__validateCenterCoords :: "int option \<Rightarrow> int option \<Rightarrow> string \<Rightarrow> error + unit" where
  "Board__validateCenterCoords x y msgType =
     (let errors = center_errors ''x'' x @ center_errors ''y'' y
      in if length errors < 1 then Inr ()
         else
           let msg = (if msgType = ''center''
                      then ''Invalid center coord'' @ (if length errors > 1 then ''s'' else [])
                      else if msgType = ''view'' then ''Can't move view to''
                      else [])
           in Inl (ChessError (msg @ '': '' @ join_comma errors)))"

definition Board__setCoords :: "Board \<Rightarrow> int option \<Rightarrow> int option \<Rightarrow> Board" where
  "Board__setCoords b x y =
     (let b1 = (case x of
                  None \<Rightarrow> b
                | Some v \<Rightarrow> b\<lparr>centerX := Some v, leftX := Some (v - radius b),
                              rightX := Some (v + radius b)\<rparr>)
      in (case y of
            None \<Rightarrow> b1
          | Some v \<Rightarrow> b1\<lparr>centerY := Some v, topY := Some (v - radius b1),
                         bottomY := Some (v + radius b1)\<rparr>))"

definition Board_set_centerX :: "Board \<Rightarrow> int \<Rightarrow> error + Board" where
  "Board_set_centerX b val =
     (case Board__validateCenterCoords (Some val) None ''center'' of
        Inl e \<Rightarrow> Inl e
      | Inr _ \<Rightarrow> Inr (Board__setCoords b (Some val) None))"

definition Board_set_centerY :: "Board \<Rightarrow> int \<Rightarrow> error + Board" where
  "Board_set_centerY b val =
     (case Board__validateCenterCoords None (Some val) ''center'' of
        Inl e \<Rightarrow> Inl e
      | Inr _ \<Rightarrow> Inr (Board__setCoords b None (Some val)))"

text \<open>\<^verbatim>\<open>new Board()\<close>, as the client's constructor calls it: no centre, length 95.\<close>

definition new_Board :: Board where
  "new_Board =
     \<lparr>board_length = 95, radius = (95 - 1) div 2, centerX = None, centerY = None,
      leftX = None, topY = None, rightX = None, bottomY = None, store = []\<rparr>"

section \<open>The client\<close>

text \<open>
  Timers and promises are handles (natural numbers). What a function does to the world
  outside the client's fields is the list of effects it returns, in order: arming and
  clearing a timer, settling a promise, starting a send, closing the socket, logging.
\<close>

datatype timer_callback =
    MoveTimeoutCallback nat nat
  | ViewTimeoutCallback nat
  | ReconnectCallback
  | PingCallback
  | PongTimeoutCallback

datatype client_message =
    MoveRequest nat int int int int MoveType nat
  | Subscribe int int
  | Ping

datatype effect =
    SetTimeout nat timer_callback real
  | ClearTimeout nat
  | Resolve nat
  | Reject nat error
  | SendRequest client_message
  | SocketSend client_message
  | SocketClose
  | Log string

text \<open>
  A pending move: the promise's \<^verbatim>\<open>resolve\<close>/\<^verbatim>\<open>reject\<close> pair, the piece, the
  coordinates and the timeout timer. The entry of the source holds the piece object
  itself; \<open>pm_piece\<close> is the value the object had when the move was requested, and
  a handler that reads the object later is given the value it has then.
\<close>

record PendingMove =
  pm_promise :: nat
  pm_piece :: Piece
  pm_fromX :: int
  pm_fromY :: int
  pm_toX :: int
  pm_toY :: int
  pm_timeout :: nat

record PendingView =
  pv_promise :: nat
  pv_timeout :: nat

text \<open>
  The fields of \<^verbatim>\<open>WsClient\<close> and \<^verbatim>\<open>ChessClient\<close> that the modelled functions read
  or write. \<open>maxConnections\<close> and \<open>connections\<close> are the class's static fields
  (\<open>None\<close> is \<^verbatim>\<open>Infinity\<close>); \<open>ws\<close> says whether \<^verbatim>\<open>_ws\<close> holds a socket;
  \<open>nextHandle\<close> is the next unused handle.
\<close>

record Client =
  defaultJitter :: real
  reconnectDelay :: real
  maxRetryCount :: nat
  maxConnections :: "nat option"
  connections :: int
  ws :: bool
  connected :: bool
  destroyed :: bool
  autoReconnect :: bool
  reconnecting :: bool
  reconnectAttempts :: nat
  reconnectTimeout :: "nat option"
  pingInterval :: "nat option"
  pongTimeout :: "nat option"
  board :: Board
  totalMoves :: nat
  totalCaptures :: nat
  moveToken :: nat
  pendingPieceMoves :: "(nat \<times> PendingMove) list"
  pendingViewMove :: "PendingView option"
  nextHandle :: nat

definition ChessClient_maxConnections :: nat where "ChessClient_maxConnections = 20"
definition minViewDist :: real where "minViewDist = 12"
definition moveTimeout :: real where "moveTimeout = 20000"
definition maxMoveToken :: nat where "maxMoveToken = 2 ^ 16 - 1"

text \<open>
  The client after \<^verbatim>\<open>new ChessClient(x0, y0, color, options)\<close>, given the options
  that the modelled functions read and the class's current connection count.
\<close>

definition new_ChessClient :: "real \<Rightarrow> real \<Rightarrow> nat \<Rightarrow> int \<Rightarrow> Client" where
  "new_ChessClient jitter delay retries conns =
     \<lparr>defaultJitter = jitter, reconnectDelay = delay, maxRetryCount = retries,
      maxConnections = Some ChessClient_maxConnections, connections = conns,
      ws = False, connected = False, destroyed = False, autoReconnect = (delay > 0),
      reconnecting = False, reconnectAttempts = 0, reconnectTimeout = None,
      pingInterval = None, pongTimeout = None, board = new_Board,
      totalMoves = 0, totalCaptures = 0, moveToken = 0, pendingPieceMoves = [],
      pendingViewMove = None, nextHandle = 0\<rparr>"

subsection \<open>Move tokens and move requests\<close>

definition getIncrMoveToken :: "Client \<Rightarrow> nat \<times> Client" where
  "getIncrMoveToken s =
     (let s1 = (if moveToken s \<ge> maxMoveToken then s\<lparr>moveToken := 0\<rparr> else s);
          s2 = s1\<lparr>moveToken := moveToken s1 + 1\<rparr>
      in (moveToken s2, s2))"

text \<open>
  \<^verbatim>\<open>ChessClient.movePiece\<close> up to the point where it returns its promise. The
  function is \<^verbatim>\<open>async\<close>: \<open>Inl e\<close> is a promise rejected with \<open>e\<close> before anything
  was awaited, \<open>Inr p\<close> the pending promise \<open>p\<close>. The move type is one of the enum's,
  so the check of \<^verbatim>\<open>MoveTypes[type]\<close> passes.
\<close>

definition ChessClient_movePiece ::
  "Client \<Rightarrow> Piece option \<Rightarrow> int \<Rightarrow> int \<Rightarrow> MoveType \<Rightarrow> (error + nat) \<times> Client \<times> effect list" where
  "ChessClient_movePiece s piece toX toY ty =
     (case piece of
        None \<Rightarrow> (Inl (ChessError ''No piece at starting position''), s, [])
      | Some p \<Rightarrow>
          (case Board__validatePieceMove (board s) p toX toY ty of
             Inl e \<Rightarrow> (Inl e, s, [])
           | Inr _ \<Rightarrow>
               (let (tok, s1) = getIncrMoveToken s;
                    promise = nextHandle s1;
                    timer = nextHandle s1 + 1;
                    pending = \<lparr>pm_promise = promise, pm_piece = p,
                               pm_fromX = piece_x p, pm_fromY = piece_y p,
                               pm_toX = toX, pm_toY = toY, pm_timeout = timer\<rparr>;
                    s2 = s1\<lparr>pendingPieceMoves := Map_set tok pending (pendingPieceMoves s1),
                            nextHandle := nextHandle s1 + 2\<rparr>
                in (Inr promise, s2,
                    [SetTimeout timer (MoveTimeoutCallback tok promise) moveTimeout,
                     SendRequest (MoveRequest (piece_id p) (piece_x p) (piece_y p) toX toY ty tok)]))))"

text \<open>The move's timeout callback, and the \<^verbatim>\<open>catch\<close> of its failed send.\<close>

definition moveTimeout_fired :: "Client \<Rightarrow> nat \<Rightarrow> nat \<Rightarrow> Client \<times> effect list" where
  "moveTimeout_fired s tok promise =
     (s\<lparr>pendingPieceMoves := Map_delete tok (pendingPieceMoves s)\<rparr>,
      [Reject promise (ChessError (''Move timed out: '' @ show_nat tok))])"

definition moveSend_failed :: "Client \<Rightarrow> nat \<Rightarrow> nat \<Rightarrow> nat \<Rightarrow> error \<Rightarrow> Client \<times> effect list" where
  "moveSend_failed s tok promise timer e =
     (s\<lparr>pendingPieceMoves := Map_delete tok (pendingPieceMoves s)\<rparr>,
      [ClearTimeout timer, Reject promise e])"

subsection \<open>View requests\<close>

text \<open>\<^verbatim>\<open>ChessClient.moveView\<close> up to the point where it returns its promise.\<close>

definition ChessClient_moveView ::
  "Client \<Rightarrow> int \<Rightarrow> int \<Rightarrow> (error + nat) \<times> Client \<times> effect list" where
  "ChessClient_moveView s cX cY =
     (if pendingViewMove s \<noteq> None then
        (Inl (ChessError ''Already waiting for view move''), s, [])
      else
        (case Board__validateCenterCoords (Some cX) (Some cY) ''view'' of
           Inl e \<Rightarrow> (Inl e, s, [])
         | Inr _ \<Rightarrow>
             (let dist = Board_distance (of_int (num (centerX (board s))))
                           (of_int (num (centerY (board s)))) (of_int cX) (of_int cY) False
              in if dist < minViewDist then
                   (Inl (ChessError (''Move distance '' @ show_int \<lfloor>dist\<rfloor> @ '' too short'')), s, [])
                 else
                   (let promise = nextHandle s;
                        timer = nextHandle s + 1;
                        s1 = s\<lparr>pendingViewMove := Some \<lparr>pv_promise = promise, pv_timeout = timer\<rparr>,
                               nextHandle := nextHandle s + 2\<rparr>
                    in (Inr promise, s1,
                        [SetTimeout timer (ViewTimeoutCallback promise) (4 * moveTimeout),
                         SendRequest (Subscribe cX cY)])))))"

definition viewTimeout_fired :: "Client \<Rightarrow> nat \<Rightarrow> Client \<times> effect list" where
  "viewTimeout_fired s promise =
     (s\<lparr>pendingViewMove := None\<rparr>, [Reject promise (ChessError ''View move timed out'')])"

definition viewSend_failed :: "Client \<Rightarrow> nat \<Rightarrow> nat \<Rightarrow> error \<Rightarrow> Client \<times> effect list" where
  "viewSend_failed s promise timer e =
     (s\<lparr>pendingViewMove := None\<rparr>, [ClearTimeout timer, Reject promise e])"

subsection \<open>Inbound messages\<close>

record Snapshot =
  xCoord :: int
  yCoord :: int
  pieces :: "(int \<times> int \<times> PieceData) list"

text \<open>
  \<^verbatim>\<open>_resetBoard(snapshot)\<close> on the board. The setters of the centre may throw after
  the board was cleared, so the board is returned with the error, if any.
\<close>

definition resetBoard :: "Board \<Rightarrow> Snapshot \<Rightarrow> Board \<times> error option" where
  "resetBoard b snap =
     (let b1 = Board_clear b
      in (case Board_set_centerX b1 (xCoord snap) of
            Inl e \<Rightarrow> (b1, Some e)
          | Inr b2 \<Rightarrow>
              (case Board_set_centerY b2 (yCoord snap) of
                 Inl e \<Rightarrow> (b2, Some e)
               | Inr b3 \<Rightarrow>
                   (fold (\<lambda>(dx, dy, piece) bd.
                            Board_set_data bd (xCoord snap + dx) (yCoord snap + dy) piece False)
                      (pieces snap) b3,
                    None))))"

text \<open>
  The handlers of \<^verbatim>\<open>_messageHandlers\<close>. An error thrown by a handler is caught and
  logged by \<^verbatim>\<open>_handleServerMessage\<close>; what the handler did before stays done.
\<close>

definition handle_initialState :: "Client \<Rightarrow> Snapshot \<Rightarrow> nat \<Rightarrow> Client \<times> effect list" where
  "handle_initialState s snap boardReady =
     (case resetBoard (board s) snap of
        (b, Some e) \<Rightarrow> (s\<lparr>board := b\<rparr>, [Log (message e)])
      | (b, None) \<Rightarrow> (s\<lparr>board := b\<rparr>, [Resolve boardReady]))"

definition handle_snapshot :: "Client \<Rightarrow> Snapshot \<Rightarrow> Client \<times> effect list" where
  "handle_snapshot s snap =
     (case resetBoard (board s) snap of
        (b, Some e) \<Rightarrow> (s\<lparr>board := b\<rparr>, [Log (message e)])
      | (b, None) \<Rightarrow>
          (case pendingViewMove s of
             None \<Rightarrow> (s\<lparr>board := b\<rparr>, [])
           | Some pending \<Rightarrow>
               (s\<lparr>board := b, pendingViewMove := None\<rparr>,
                [ClearTimeout (pv_timeout pending), Resolve (pv_promise pending)])))"

text \<open>
  The handler of \<^verbatim>\<open>validMove\<close> moves \<^verbatim>\<open>pending.piece\<close>, the piece object of the
  request, which other moves may have changed since: \<open>live\<close> is the value of that
  object when the message arrives.
\<close>

definition handle_validMove :: "Client \<Rightarrow> nat \<Rightarrow> nat \<Rightarrow> Piece \<Rightarrow> Client \<times> effect list" where
  "handle_validMove s tok capturedPieceId live =
     (case Map_get (pendingPieceMoves s) tok of
        None \<Rightarrow> (s, [])
      | Some pending \<Rightarrow>
          (let s1 = s\<lparr>pendingPieceMoves := Map_delete tok (pendingPieceMoves s)\<rparr>
           in (case Board_movePiece (board s1) (Some live)
                       (pm_toX pending) (pm_toY pending) MOVE_TYPE_NORMAL False False of
                 Inl e \<Rightarrow> (s1, [ClearTimeout (pm_timeout pending), Log (message e)])
               | Inr (b, _) \<Rightarrow>
                   (s1\<lparr>board := b, totalMoves := totalMoves s1 + 1,
                       totalCaptures := (if capturedPieceId \<noteq> 0 then totalCaptures s1 + 1
                                         else totalCaptures s1)\<rparr>,
                    [ClearTimeout (pm_timeout pending), Resolve (pm_promise pending)]))))"

definition handle_invalidMove :: "Client \<Rightarrow> nat \<Rightarrow> Client \<times> effect list" where
  "handle_invalidMove s tok =
     (case Map_get (pendingPieceMoves s) tok of
        None \<Rightarrow> (s, [])
      | Some pending \<Rightarrow>
          (s\<lparr>pendingPieceMoves := Map_delete tok (pendingPieceMoves s)\<rparr>,
           [ClearTimeout (pm_timeout pending),
            Reject (pm_promise pending) (ChessError (''Invalid move: '' @ show_nat tok))]))"

text \<open>
  The two loops over captured ids and over moves. \<^verbatim>\<open>captureWithId(id, false)\<close>
  never throws.
\<close>

definition capture_ids :: "Board \<Rightarrow> nat list \<Rightarrow> Board" where
  "capture_ids b ids =
     fold (\<lambda>i bd. (case Board_captureWithId bd i False of Inl _ \<Rightarrow> bd | Inr (bd', _) \<Rightarrow> bd'))
       ids b"

definition set_moves :: "Board \<Rightarrow> (int \<times> int \<times> PieceData) list \<Rightarrow> Board" where
  "set_moves b moves = fold (\<lambda>(x, y, piece) bd. Board_set_data bd x y piece False) moves b"

definition handle_movesAndCaptures ::
  "Client \<Rightarrow> (int \<times> int \<times> PieceData) list \<Rightarrow> nat list \<Rightarrow> Client" where
  "handle_movesAndCaptures s moves captures =
     s\<lparr>board := set_moves (capture_ids (board s) captures) moves\<rparr>"

definition handle_bulkCapture :: "Client \<Rightarrow> nat list \<Rightarrow> Client" where
  "handle_bulkCapture s capturedIds = s\<lparr>board := capture_ids (board s) capturedIds\<rparr>"

subsection \<open>Closing the connection\<close>

text \<open>
  \<^verbatim>\<open>ChessClient._rejectPendingRequests\<close>: every pending move, in the table's order,
  then the pending view.
\<close>

definition reject_move :: "PendingMove \<Rightarrow> effect list" where
  "reject_move pending =
     [ClearTimeout (pm_timeout pending),
      Reject (pm_promise pending) (ChessError ''Connection closed'')]"

definition rejectPendingRequests :: "Client \<Rightarrow> Client \<times> effect list" where
  "rejectPendingRequests s =
     (let es = concat (map (\<lambda>(tok, pending). reject_move pending) (pendingPieceMoves s));
          s1 = s\<lparr>pendingPieceMoves := []\<rparr>
      in (case pendingViewMove s1 of
            None \<Rightarrow> (s1, es)
          | Some pending \<Rightarrow>
              (s1\<lparr>pendingViewMove := None\<rparr>,
               es @ [ClearTimeout (pv_timeout pending),
                     Reject (pv_promise pending) (ChessError ''Connection closed'')])))"

text \<open>\<^verbatim>\<open>clearTimeout\<close> of a field; clearing \<^verbatim>\<open>undefined\<close> does nothing.\<close>

fun clear_timer :: "nat option \<Rightarrow> effect list" where
  "clear_timer None = []"
| "clear_timer (Some h) = [ClearTimeout h]"

definition clearTimers :: "Client \<Rightarrow> Client \<times> effect list" where
  "clearTimers s =
     (s\<lparr>reconnectTimeout := None, pingInterval := None, pongTimeout := None\<rparr>,
      clear_timer (reconnectTimeout s) @ clear_timer (pingInterval s) @ clear_timer (pongTimeout s))"

definition cleanupSocket :: "Client \<Rightarrow> Client \<times> effect list" where
  "cleanupSocket s = (if \<not> ws s then (s, []) else (s\<lparr>ws := False\<rparr>, [SocketClose]))"

definition decrement :: "Client \<Rightarrow> error + Client" where
  "decrement s =
     (if maxConnections s = None then Inr s
      else if connections s \<le> 0 then
        Inl (ClientError ''Connection count cannot be lower than 0'')
      else Inr (s\<lparr>connections := connections s - 1\<rparr>))"

text \<open>
  \<^verbatim>\<open>WsClient._getRetryTime(base, jitter, error)\<close>; \<open>r1\<close> and \<open>r2\<close> are the two
  values of \<^verbatim>\<open>Math.random()\<close>.
\<close>

definition getRetryTime :: "real \<Rightarrow> real \<Rightarrow> bool \<Rightarrow> real \<Rightarrow> real \<Rightarrow> real" where
  "getRetryTime base jitter err r1 r2 =
     (let time = base + (r1 * jitter - jitter / 2)
      in if err then time * (1 + r2 * 0.4) else time)"

definition scheduleReconnect :: "Client \<Rightarrow> bool \<Rightarrow> real \<Rightarrow> real \<Rightarrow> Client \<times> effect list" where
  "scheduleReconnect s wasError r1 r2 =
     (if reconnecting s \<or> destroyed s then (s, [])
      else
        let s1 = s\<lparr>reconnectAttempts := reconnectAttempts s + 1\<rparr>
        in if reconnectAttempts s1 > maxRetryCount s1 then (s1, [])
           else
             let baseDelay = (of_nat (reconnectAttempts s1) * reconnectDelay s1) / 2;
                 delay = getRetryTime baseDelay (5 * defaultJitter s1) wasError r1 r2;
                 h = nextHandle s1
             in (s1\<lparr>reconnectTimeout := Some h, nextHandle := h + 1\<rparr>,
                 [SetTimeout h ReconnectCallback delay]))"

text \<open>
  \<^verbatim>\<open>_handleDisconnect(code)\<close>. The decrement of the connection count comes second
  and may throw; then nothing after it runs. The result is the error thrown, if any,
  the client and the effects. The promise \<^verbatim>\<open>_connectionReady\<close>, which is reset
  here, is not a field of the model: what a send awaits is given to \<open>attemptSend\<close>.
\<close>

definition handleDisconnect ::
  "Client \<Rightarrow> int \<Rightarrow> real \<Rightarrow> real \<Rightarrow> error option \<times> Client \<times> effect list" where
  "handleDisconnect s code r1 r2 =
     (let s1 = s\<lparr>connected := False\<rparr>
      in (case decrement s1 of
            Inl e \<Rightarrow> (Some e, s1, [])
          | Inr s2 \<Rightarrow>
              (let (s3, e3) = rejectPendingRequests s2;
                   (s4, e4) = clearTimers s3;
                   (s5, e5) = cleanupSocket s4;
                   es = [Log ''Websocket closed with code:''] @ e3 @ e4 @ e5
               in if autoReconnect s5 then
                    (let wasError = (code \<noteq> 1000);
                         (s6, e6) = scheduleReconnect s5 wasError r1 r2
                     in (None, s6, es @ e6))
                  else (None, s5, es))))"

definition onWebsocketClose :: "Client \<Rightarrow> int \<Rightarrow> real \<Rightarrow> real \<Rightarrow> error option \<times> Client \<times> effect list" where
  "onWebsocketClose s code r1 r2 = handleDisconnect s code r1 r2"

definition onWebsocketError :: "Client \<Rightarrow> real \<Rightarrow> real \<Rightarrow> error option \<times> Client \<times> effect list" where
  "onWebsocketError s r1 r2 =
     (case handleDisconnect s 1006 r1 r2 of
        (e, s', es) \<Rightarrow> (e, s', [Log ''ERROR: Websocket error:''] @ es))"

definition resetReconnecting :: "Client \<Rightarrow> bool \<Rightarrow> Client" where
  "resetReconnecting s success =
     (let s1 = s\<lparr>reconnecting := False\<rparr>
      in if success then s1\<lparr>reconnectAttempts := 0\<rparr> else s1)"

text \<open>
  The error-driven closes: the socket's \<^verbatim>\<open>error\<close> listener, its \<^verbatim>\<open>close\<close>
  listener, and the pong timeout.
\<close>

definition ws_on_error :: "Client \<Rightarrow> real \<Rightarrow> real \<Rightarrow> error option \<times> Client \<times> effect list" where
  "ws_on_error s r1 r2 = onWebsocketError (resetReconnecting s False) r1 r2"

definition ws_on_close :: "Client \<Rightarrow> int \<Rightarrow> real \<Rightarrow> real \<Rightarrow> error option \<times> Client \<times> effect list" where
  "ws_on_close s code r1 r2 = onWebsocketClose (resetReconnecting s False) code r1 r2"

definition pongTimeout_fired :: "Client \<Rightarrow> real \<Rightarrow> real \<Rightarrow> error option \<times> Client \<times> effect list" where
  "pongTimeout_fired s r1 r2 = handleDisconnect s 1006 r1 r2"

text \<open>\<^verbatim>\<open>disconnect()\<close>: the close runs with the default code 1000.\<close>

definition disconnect :: "Client \<Rightarrow> real \<Rightarrow> real \<Rightarrow> error option \<times> Client \<times> effect list" where
  "disconnect s r1 r2 = onWebsocketClose (s\<lparr>autoReconnect := False\<rparr>) 1000 r1 r2"

subsection \<open>Opening the connection\<close>

definition increment :: "Client \<Rightarrow> error + Client" where
  "increment s =
     (case maxConnections s of
        None \<Rightarrow> Inr s
      | Some m \<Rightarrow>
          (if connections s \<ge> int m then
             Inl (ClientError (''Maximum connections ('' @ show_nat m @ '') exceeded for ChessClient''))
           else Inr (s\<lparr>connections := connections s + 1\<rparr>)))"

text \<open>
  \<^verbatim>\<open>_connect()\<close> up to the creation of the socket: \<open>Inl e\<close> is the promise rejected
  with \<open>e\<close>, \<open>Inr False\<close> the promise of a client that is connected already,
  \<open>Inr True\<close> a new socket whose listeners are installed.
\<close>

definition connect :: "Client \<Rightarrow> (error + bool) \<times> Client" where
  "connect s =
     (if destroyed s then (Inl (ClientError ''Client destroyed''), s)
      else if connected s then (Inr False, s)
      else (case increment s of
              Inl e \<Rightarrow> (Inl e, s)
            | Inr s1 \<Rightarrow> (Inr True, s1\<lparr>reconnecting := True, ws := True\<rparr>)))"

text \<open>
  \<^verbatim>\<open>_schedulePing()\<close>; \<open>r\<close> is the value of \<^verbatim>\<open>Math.random()\<close>, and 1200 is
  \<^verbatim>\<open>ChessClient._pingInterval\<close>.
\<close>

definition schedulePing :: "Client \<Rightarrow> real \<Rightarrow> Client \<times> effect list" where
  "schedulePing s r =
     (let h = nextHandle s
      in (s\<lparr>pingInterval := Some h, nextHandle := h + 1\<rparr>,
          clear_timer (pingInterval s) @ clear_timer (pongTimeout s)
          @ [SetTimeout h PingCallback (getRetryTime 1200 (defaultJitter s / 2) False r 0)]))"

text \<open>The socket's \<^verbatim>\<open>open\<close> listener.\<close>

definition ws_on_open :: "Client \<Rightarrow> real \<Rightarrow> Client \<times> effect list" where
  "ws_on_open s r =
     (case schedulePing ((resetReconnecting s True)\<lparr>connected := True\<rparr>) r of
        (s', es) \<Rightarrow> (s', [Log ''Websocket opened.''] @ es))"

text \<open>\<^verbatim>\<open>_resetState()\<close> and \<^verbatim>\<open>init()\<close> up to the creation of the socket.\<close>

definition resetState :: "Client \<Rightarrow> Client" where
  "resetState s =
     resetReconnecting
       (s\<lparr>connected := False, destroyed := False, autoReconnect := (reconnectDelay s > 0)\<rparr>) True"

definition init_client :: "Client \<Rightarrow> (error + bool) \<times> Client" where
  "init_client s = connect (resetState s)"

text \<open>
  The callback of the ping timer: it sends a ping on the socket and arms the pong
  timeout (20000 is \<^verbatim>\<open>ChessClient._pongTimeout\<close>). Without a socket the send throws.
\<close>

definition pingTimer_fired :: "Client \<Rightarrow> error option \<times> Client \<times> effect list" where
  "pingTimer_fired s =
     (if \<not> ws s then (Some (TypeError ''Cannot read properties of null''), s, [])
      else
        let h = nextHandle s
        in (None, s\<lparr>pongTimeout := Some h, nextHandle := h + 1\<rparr>,
            [SocketSend Ping, SetTimeout h PongTimeoutCallback 20000]))"

subsection \<open>Runs of the client\<close>

text \<open>
  What can happen to a client, one after the other: a call of its interface, a timer
  that fires, a send that fails, a message or an event of the socket. A step returns
  the client and the move tokens it allocated.
\<close>

datatype client_event =
    RequestMove "Piece option" int int MoveType
  | MoveTimeoutFired nat nat
  | MoveSendFailed nat nat nat error
  | RequestView int int
  | ViewTimeoutFired nat
  | ViewSendFailed nat nat error
  | InitialStateMsg Snapshot nat
  | SnapshotMsg Snapshot
  | ValidMoveMsg nat nat Piece
  | InvalidMoveMsg nat
  | MovesAndCapturesMsg "(int \<times> int \<times> PieceData) list" "nat list"
  | BulkCaptureMsg "nat list"
  | Init
  | Connect
  | SocketOpen real
  | PingTimerFired
  | SocketError real real
  | SocketClosed int real real
  | PongTimeoutFired real real
  | Disconnect

fun step :: "Client \<Rightarrow> client_event \<Rightarrow> Client \<times> nat list" where
  "step s (RequestMove piece toX toY ty) =
     (case ChessClient_movePiece s piece toX toY ty of
        (Inl e, s', es) \<Rightarrow> (s', [])
      | (Inr p, s', es) \<Rightarrow> (s', [moveToken s']))"
| "step s (MoveTimeoutFired tok promise) = (fst (moveTimeout_fired s tok promise), [])"
| "step s (MoveSendFailed tok promise timer e) = (fst (moveSend_failed s tok promise timer e), [])"
| "step s (RequestView cX cY) = (fst (snd (ChessClient_moveView s cX cY)), [])"
| "step s (ViewTimeoutFired promise) = (fst (viewTimeout_fired s promise), [])"
| "step s (ViewSendFailed promise timer e) = (fst (viewSend_failed s promise timer e), [])"
| "step s (InitialStateMsg snap boardReady) = (fst (handle_initialState s snap boardReady), [])"
| "step s (SnapshotMsg snap) = (fst (handle_snapshot s snap), [])"
| "step s (ValidMoveMsg tok captured live) = (fst (handle_validMove s tok captured live), [])"
| "step s (InvalidMoveMsg tok) = (fst (handle_invalidMove s tok), [])"
| "step s (MovesAndCapturesMsg moves captures) = (handle_movesAndCaptures s moves captures, [])"
| "step s (BulkCaptureMsg ids) = (handle_bulkCapture s ids, [])"
| "step s Init = (snd (init_client s), [])"
| "step s Connect = (snd (connect s), [])"
| "step s PingTimerFired = (fst (snd (pingTimer_fired s)), [])"
| "step s (SocketOpen r) = (fst (ws_on_open s r), [])"
| "step s (SocketError r1 r2) = (fst (snd (ws_on_error s r1 r2)), [])"
| "step s (SocketClosed code r1 r2) = (fst (snd (ws_on_close s code r1 r2)), [])"
| "step s (PongTimeoutFired r1 r2) = (fst (snd (pongTimeout_fired s r1 r2)), [])"
| "step s Disconnect = (fst (snd (disconnect s 0 0)), [])"

fun run :: "Client \<Rightarrow> client_event list \<Rightarrow> Client \<times> nat list" where
  "run s [] = (s, [])"
| "run s (ev # evs) =
     (case step s ev of
        (s1, toks1) \<Rightarrow> (case run s1 evs of (s2, toks2) \<Rightarrow> (s2, toks1 @ toks2)))"

text \<open>The effects of a step and of a run, in order.\<close>

fun effects_of :: "Client \<Rightarrow> client_event \<Rightarrow> effect list" where
  "effects_of s (RequestMove piece toX toY ty) = snd (snd (ChessClient_movePiece s piece toX toY ty))"
| "effects_of s (MoveTimeoutFired tok promise) = snd (moveTimeout_fired s tok promise)"
| "effects_of s (MoveSendFailed tok promise timer e) = snd (moveSend_failed s tok promise timer e)"
| "effects_of s (RequestView cX cY) = snd (snd (ChessClient_moveView s cX cY))"
| "effects_of s (ViewTimeoutFired promise) = snd (viewTimeout_fired s promise)"
| "effects_of s (ViewSendFailed promise timer e) = snd (viewSend_failed s promise timer e)"
| "effects_of s (InitialStateMsg snap boardReady) = snd (handle_initialState s snap boardReady)"
| "effects_of s (SnapshotMsg snap) = snd (handle_snapshot s snap)"
| "effects_of s (ValidMoveMsg tok captured live) = snd (handle_validMove s tok captured live)"
| "effects_of s (InvalidMoveMsg tok) = snd (handle_invalidMove s tok)"
| "effects_of s (MovesAndCapturesMsg moves captures) = []"
| "effects_of s (BulkCaptureMsg ids) = []"
| "effects_of s Init = []"
| "effects_of s Connect = []"
| "effects_of s PingTimerFired = snd (snd (pingTimer_fired s))"
| "effects_of s (SocketOpen r) = snd (ws_on_open s r)"
| "effects_of s (SocketError r1 r2) = snd (snd (ws_on_error s r1 r2))"
| "effects_of s (SocketClosed code r1 r2) = snd (snd (ws_on_close s code r1 r2))"
| "effects_of s (PongTimeoutFired r1 r2) = snd (snd (pongTimeout_fired s r1 r2))"
| "effects_of s Disconnect = snd (snd (disconnect s 0 0))"

fun run_effects :: "Client \<Rightarrow> client_event list \<Rightarrow> effect list" where
  "run_effects s [] = []"
| "run_effects s (ev # evs) = effects_of s ev @ run_effects (fst (step s ev)) evs"

text \<open>
  A request is made when its promise is returned and its timeout timer armed, and it is
  settled when its promise is resolved or rejected. From a list of effects: the move
  requests made, each with its token and its promise; the view requests made, each with
  its promise; the promises settled; and the requests made and not settled.
\<close>

fun requested_moves :: "effect list \<Rightarrow> (nat \<times> nat) list" where
  "requested_moves [] = []"
| "requested_moves (SetTimeout h (MoveTimeoutCallback tok promise) d # es) =
     (tok, promise) # requested_moves es"
| "requested_moves (e # es) = requested_moves es"

fun requested_views :: "effect list \<Rightarrow> nat list" where
  "requested_views [] = []"
| "requested_views (SetTimeout h (ViewTimeoutCallback promise) d # es) = promise # requested_views es"
| "requested_views (e # es) = requested_views es"

fun settled :: "effect list \<Rightarrow> nat list" where
  "settled [] = []"
| "settled (Resolve promise # es) = promise # settled es"
| "settled (Reject promise e # es) = promise # settled es"
| "settled (e # es) = settled es"

definition unsettled_moves :: "effect list \<Rightarrow> (nat \<times> nat) list" where
  "unsettled_moves es = filter (\<lambda>(tok, promise). promise \<notin> set (settled es)) (requested_moves es)"

definition unsettled_views :: "effect list \<Rightarrow> nat list" where
  "unsettled_views es = filter (\<lambda>promise. promise \<notin> set (settled es)) (requested_views es)"

text \<open>The token after \<open>t\<close>, and a list of tokens in which each is the one after the last.\<close>

definition next_token :: "nat \<Rightarrow> nat" where
  "next_token t = (if t \<ge> maxMoveToken then 1 else t + 1)"

fun chain :: "nat \<Rightarrow> nat list \<Rightarrow> bool" where
  "chain t [] = True"
| "chain t (a # as) = (a = next_token t \<and> chain a as)"

section \<open>Sending\<close>

subsection \<open>The rate limiter\<close>







subsection \<open>Sending with retry\<close>

text \<open>\<^verbatim>\<open>String.prototype.includes\<close>.\<close>

fun starts_with :: "string \<Rightarrow> string \<Rightarrow> bool" where
  "starts_with s [] = True"
| "starts_with [] (c # cs) = False"
| "starts_with (x # xs) (c # cs) = (x = c \<and> starts_with xs cs)"

fun js_includes :: "string \<Rightarrow> string \<Rightarrow> bool" where
  "js_includes [] sub = (sub = [])"
| "js_includes (x # xs) sub = (starts_with (x # xs) sub \<or> js_includes xs sub)"

text \<open>
  What one call of \<^verbatim>\<open>_attemptSend\<close> meets: whether the awaited
  \<^verbatim>\<open>_connectionReady\<close> is rejected, the two flags after the token was acquired
  (the wait for a token is taken to end), and the error the socket's \<^verbatim>\<open>send\<close>
  reports, if any.
\<close>

record Attempt =
  att_ready :: "error option"
  att_destroyed :: bool
  att_connected :: bool
  att_send :: "error option"

definition attemptSend :: "Attempt \<Rightarrow> error + unit" where
  "attemptSend a =
     (case att_ready a of
        Some e \<Rightarrow> Inl e
      | None \<Rightarrow>
          (if att_destroyed a then Inl (ClientError ''Client destroyed'')
           else if \<not> att_connected a then Inl (ClientError ''Connection not open'')
           else (case att_send a of Some e \<Rightarrow> Inl e | None \<Rightarrow> Inr ())))"

text \<open>
  The outcome of a send and the number of attempts made. \<open>world k\<close> is what the
  attempt after \<open>k\<close> failed ones meets. The loop of \<^verbatim>\<open>_sendWithRetry\<close> ends: every
  turn returns, throws or counts one more retry.
\<close>

datatype send_outcome = Sent | ReturnedUndefined | Thrown error

function sendWithRetry :: "(nat \<Rightarrow> Attempt) \<Rightarrow> nat \<Rightarrow> nat \<Rightarrow> send_outcome \<times> nat" where
  "sendWithRetry world maxRetry retries =
     (case attemptSend (world retries) of
        Inr _ \<Rightarrow> (Sent, retries + 1)
      | Inl e \<Rightarrow>
          (if js_includes (message e) ''destoyed'' then (ReturnedUndefined, retries + 1)
           else if retries + 1 > maxRetry then (Thrown e, retries + 1)
           else sendWithRetry world maxRetry (retries + 1)))"
  by pat_completeness auto
termination
  by (relation "measure (\<lambda>(world, maxRetry, retries). maxRetry + 1 - retries)") auto

declare sendWithRetry.simps [simp del]

definition enableRetry :: "real \<Rightarrow> nat \<Rightarrow> bool" where
  "enableRetry retryDelay maxRetry = (retryDelay > 0 \<and> maxRetry > 0)"

definition sendRequest :: "(nat \<Rightarrow> Attempt) \<Rightarrow> real \<Rightarrow> nat \<Rightarrow> send_outcome \<times> nat" where
  "sendRequest world retryDelay maxRetry =
     (if \<not> enableRetry retryDelay maxRetry then
        (case attemptSend (world 0) of Inr _ \<Rightarrow> (Sent, 1) | Inl e \<Rightarrow> (Thrown e, 1))
      else sendWithRetry world maxRetry 0)"

section \<open>Properties of the state\<close>




text \<open>
  No two keys of a map hold values with the same \<open>f\<close>; a value of \<open>f\<close> is held
  under the key \<open>k\<close> at most. On the board's store with \<open>f\<close> the id of a piece:
  no two coordinate keys hold pieces with the same id.
\<close>

definition unique_by :: "('v \<Rightarrow> 'i) \<Rightarrow> ('k \<times> 'v) list \<Rightarrow> bool" where
  "unique_by f m =
     (\<forall>k1 k2 p1 p2. Map_get m k1 = Some p1 \<and> Map_get m k2 = Some p2 \<and> f p1 = f p2 \<longrightarrow> k1 = k2)"

definition only_at :: "('v \<Rightarrow> 'i) \<Rightarrow> ('k \<times> 'v) list \<Rightarrow> 'i \<Rightarrow> 'k \<Rightarrow> bool" where
  "only_at f m i k = (\<forall>k' q. Map_get m k' = Some q \<and> f q = i \<longrightarrow> k' = k)"

definition ids_unique :: "Board \<Rightarrow> bool" where
  "ids_unique b = unique_by piece_id (store b)"

definition id_only_at :: "Board \<Rightarrow> nat \<Rightarrow> int \<times> int \<Rightarrow> bool" where
  "id_only_at b i k = only_at piece_id (store b) i k"

definition has_id :: "Board \<Rightarrow> nat \<Rightarrow> bool" where
  "has_id b i = (\<exists>k q. Map_get (store b) k = Some q \<and> piece_id q = i)"

definition snapshot_ids :: "Snapshot \<Rightarrow> nat list" where
  "snapshot_ids snap = map (\<lambda>(dx, dy, d). data_id d) (pieces snap)"

section \<open>Example inputs\<close>

text \<open>
  A new client with the defaults of \<^verbatim>\<open>ChessClient\<close> (jitter 4000, reconnect delay
  15000, five retries) while no connection is open; the client after it has connected;
  and the client after the initial snapshot, centred at (100, 100) with one white
  knight, of id 7, at the centre.
\<close>

definition knight7 :: Piece where
  "knight7 = \<lparr>piece_x = 100, piece_y = 100, piece_id = 7, piece_type = PIECE_TYPE_KNIGHT,
     piece_color = white, moveCount = 0, captureCount = 0\<rparr>"

definition knight7_data :: PieceData where
  "knight7_data = \<lparr>data_id = 7, data_type = PIECE_TYPE_KNIGHT, data_isWhite = True,
     data_moveCount = 0, data_captureCount = 0\<rparr>"

text \<open>A black pawn, of id 8, at (101, 102).\<close>

definition pawn8 :: Piece where
  "pawn8 = \<lparr>piece_x = 101, piece_y = 102, piece_id = 8, piece_type = PIECE_TYPE_PAWN,
     piece_color = black, moveCount = 0, captureCount = 0\<rparr>"

definition snapshot0 :: Snapshot where
  "snapshot0 = \<lparr>xCoord = 100, yCoord = 100, pieces = [(0, 0, knight7_data)]\<rparr>"

definition client0 :: Client where
  "client0 = new_ChessClient 4000 15000 5 0"

definition client_open :: Client where
  "client_open = fst (ws_on_open (snd (connect client0)) 0)"

definition client1 :: Client where
  "client1 = fst (handle_initialState client_open snapshot0 0)"

text \<open>The board of \<open>client1\<close> with the pawn on it.\<close>

definition board_two :: Board where
  "board_two = Board_set (board client1) 101 102 pawn8 True"



text \<open>\<open>client1\<close> with a move of the knight and a move of the view pending.\<close>

definition client_viewing :: Client where
  "client_viewing = fst (snd (ChessClient_moveView client1 120 100))"


text \<open>
  \<open>client1\<close> after its ping timer has fired and \<^verbatim>\<open>init()\<close> was called again while
  the pong was awaited: a second socket is connecting. And \<open>client1\<close> when the class's
  connection count has been brought to 0 by another client's \<^verbatim>\<open>disconnect()\<close>, and
  \<open>client1\<close> after five reconnect attempts.
\<close>

definition client_reinit :: Client where
  "client_reinit = snd (init_client (fst (snd (pingTimer_fired client1))))"

definition client_miscounted :: Client where
  "client_miscounted = client1\<lparr>connections := 0\<rparr>"

definition client_exhausted :: Client where
  "client_exhausted = client1\<lparr>reconnectAttempts := 5\<rparr>"

text \<open>Every attempt to send meets a destroyed client.\<close>

definition destroyed_world :: "nat \<Rightarrow> Attempt" where
  "destroyed_world k =
     \<lparr>att_ready = None, att_destroyed = True, att_connected = False, att_send = None\<rparr>"

text \<open>
  After the initial snapshot, \<open>n\<close> requests to move the knight from (100, 100) to
  (101, 102), none of them answered.
\<close>

definition knight_request :: client_event where
  "knight_request = RequestMove (Some knight7) 101 102 MOVE_TYPE_NORMAL"

definition request_events :: "nat \<Rightarrow> client_event list" where
  "request_events n =
     [Connect, SocketOpen 0, InitialStateMsg snapshot0 0] @ replicate n knight_request"

text \<open>
  A view move is requested while its send waits; the client disconnects, which rejects
  the request; a second view move is requested; then the send of the first fails.
\<close>

definition client_closed :: Client where
  "client_closed = fst (snd (disconnect client_viewing 0 0))"

definition client_second_view :: Client where
  "client_second_view = fst (snd (ChessClient_moveView client_closed 130 100))"

definition client_cleared :: Client where
  "client_cleared = fst (viewSend_failed client_second_view 1 2 (ClientError ''Connection not open''))"

definition view_events :: "client_event list" where
  "view_events =
     [Connect, SocketOpen 0, InitialStateMsg snapshot0 0,
      RequestView 120 100, Disconnect, RequestView 130 100,
      ViewSendFailed 1 2 (ClientError ''Connection not open'')]"


section \<open>Theorems\<close>

subsection \<open>The move validator\<close>

lemma Board_distance_int:
  "Board_distance (of_int a) (of_int b) (of_int c) (of_int d) fl
   = of_int (chebyshev (c - a) (d - b))"
  by (simp add: Board_distance_def chebyshev_def Let_def)

text \<open>
  C1. For every piece, destination and move kind, \<open>canMoveTo\<close> is the documented rule
  table applied to the floored delta: beyond Chebyshev distance 25 and at a zero delta
  the move is rejected, a castle needs a king moving two columns in its row, an
  en-passant needs a pawn and is then judged by the pawn rule, and every other move is
  judged by the rule of the piece's type.
\<close>

theorem canMoveTo_rule_table:
  "canMoveTo p x y mt
   = spec_legal (piece_type p) (piece_color p) (moveCount p)
       (\<lfloor>x\<rfloor> - piece_x p) (\<lfloor>y\<rfloor> - piece_y p) mt"
proof -
  have d: "Board_distance (of_int (piece_x p)) (of_int (piece_y p)) (of_int \<lfloor>x\<rfloor>) (of_int \<lfloor>y\<rfloor>) False
           = of_int (chebyshev (\<lfloor>x\<rfloor> - piece_x p) (\<lfloor>y\<rfloor> - piece_y p))"
    by (rule Board_distance_int)
  show ?thesis
  proof (cases "piece_color p")
    case black
    then show ?thesis
      unfolding canMoveTo_def Let_def d maxMoveDistance_def
      by (cases mt; cases "piece_type p")
         (auto simp: spec_pawn_rule_def spec_rook_rule_def spec_bishop_rule_def)
  next
    case white
    then show ?thesis
      unfolding canMoveTo_def Let_def d maxMoveDistance_def
      by (cases mt; cases "piece_type p")
         (auto simp: spec_pawn_rule_def spec_rook_rule_def spec_bishop_rule_def)
  qed
qed

theorem canMoveTo_rule_table_witness:
  "canMoveTo knight7 (203 / 2) 102 MOVE_TYPE_NORMAL
   \<and> \<not> canMoveTo knight7 (203 / 2) 103 MOVE_TYPE_NORMAL"
  using canMoveTo_rule_table[of knight7 "203 / 2" 102 MOVE_TYPE_NORMAL]
    canMoveTo_rule_table[of knight7 "203 / 2" 103 MOVE_TYPE_NORMAL]
  by (simp add: knight7_def chebyshev_def)

subsection \<open>Maps\<close>

lemma Map_get_Map_set: "Map_get (Map_set k v m) k' = (if k' = k then Some v else Map_get m k')"
  by (induction m) auto

lemma Map_get_Map_delete: "Map_get (Map_delete k m) k' = (if k' = k then None else Map_get m k')"
  by (induction m) auto

lemma Map_set_keys: "fst ` set (Map_set k v m) = insert k (fst ` set m)"
  by (induction m) auto

lemma distinct_Map_set: "distinct (map fst m) \<Longrightarrow> distinct (map fst (Map_set k v m))"
  by (induction m) (auto simp: Map_set_keys)

lemma Map_delete_keys: "fst ` set (Map_delete k m) = fst ` set m - {k}"
  by (induction m) auto

lemma distinct_Map_delete: "distinct (map fst m) \<Longrightarrow> distinct (map fst (Map_delete k m))"
  by (induction m) (auto simp: Map_delete_keys)

subsection \<open>Moving a piece on the board\<close>

lemmas board_defs = Board_pieceInBounds_def Board__pieceInBounds_def static_pieceInBounds_def
  minPieceCoords_def maxPieceCoords_def totalSize_def boardSize_def minCenterCoords_def
  maxCenterCoords_def getCoordsKey_def Board_set_def Board_set_data_def Board_delete_def
  Board_has_def Board_get_def Map_has_def

lemma canMoveTo_not_origin:
  "canMoveTo p (of_int toX) (of_int toY) ty \<Longrightarrow> (toX, toY) \<noteq> (piece_x p, piece_y p)"
  by (auto simp: canMoveTo_def Let_def split: if_splits)

lemma validatePieceMove_Inr:
  "Board__validatePieceMove b p toX toY ty = Inr () \<longleftrightarrow>
     Board_pieceInBounds b (piece_x p) (piece_y p) \<and> Board_pieceInBounds b toX toY
     \<and> canMoveTo p (of_int toX) (of_int toY) ty"
  by (simp add: Board__validatePieceMove_def)

text \<open>
  C2. When the board's validator accepts the move of a piece to \<open>(toX, toY)\<close>,
  \<open>movePiece\<close> succeeds, with or without validation; afterwards the store has no
  entry under the key of the piece's old coordinates, which resolve to nothing, the piece
  carries the destination's coordinates, its \<open>captureCount\<close> is one more when a
  capture was requested or the store had an entry under the destination's key and its
  \<open>moveCount\<close> is one more otherwise (the other counter, the id, the type and the
  colour are unchanged), the store holds the piece under the destination's key, which
  resolves to it, and every other key holds what it held.
\<close>

theorem movePiece_effects:
  assumes valid: "Board__validatePieceMove b p toX toY ty = Inr ()"
  shows "\<exists>b' p'. Board_movePiece b (Some p) toX toY ty capture validate = Inr (b', p')
     \<and> Map_get (store b') (piece_x p, piece_y p) = None
     \<and> Board_get b' (piece_x p) (piece_y p) validate = None
     \<and> Board_has b' (piece_x p) (piece_y p) validate = False
     \<and> piece_x p' = toX \<and> piece_y p' = toY
     \<and> (if capture \<or> Map_get (store b) (toX, toY) \<noteq> None
         then captureCount p' = captureCount p + 1 \<and> moveCount p' = moveCount p
         else moveCount p' = moveCount p + 1 \<and> captureCount p' = captureCount p)
     \<and> piece_id p' = piece_id p \<and> piece_type p' = piece_type p \<and> piece_color p' = piece_color p
     \<and> Map_get (store b') (toX, toY) = Some p'
     \<and> Board_get b' toX toY validate = Some p'
     \<and> (\<forall>k. k \<noteq> (piece_x p, piece_y p) \<and> k \<noteq> (toX, toY)
            \<longrightarrow> Map_get (store b') k = Map_get (store b) k)"
proof -
  from valid have inb: "Board_pieceInBounds b (piece_x p) (piece_y p)"
    and inb': "Board_pieceInBounds b toX toY"
    and can: "canMoveTo p (of_int toX) (of_int toY) ty"
    by (simp_all add: validatePieceMove_Inr)
  from can have ne: "(toX, toY) \<noteq> (piece_x p, piece_y p)"
    by (rule canMoveTo_not_origin)
  define k0 where "k0 = (piece_x p, piece_y p)"
  define k1 where "k1 = (toX, toY)"
  define p' where "p' = (if capture \<or> Map_get (store b) k1 \<noteq> None
                         then Piece_capture p toX toY else Piece_move p toX toY)"
  define b' where "b' = b\<lparr>store := Map_set k1 p' (Map_delete k0 (store b))\<rparr>"
  have nk: "k1 \<noteq> k0" using ne by (simp add: k0_def k1_def)
  have bnd: "Board_pieceInBounds b' x y = Board_pieceInBounds b x y" for x y
    by (simp add: b'_def Board_pieceInBounds_def Board__pieceInBounds_def)
  have mv: "Board_movePiece b (Some p) toX toY ty capture validate = Inr (b', p')"
    using valid inb inb' nk
    by (simp add: Board_movePiece_def Let_def Board_delete_def Board_set_def Board_has_def
        Board_pieceInBounds_def Board__pieceInBounds_def Map_has_def getCoordsKey_def
        Map_get_Map_delete b'_def p'_def k0_def[symmetric] k1_def[symmetric])
  have g0: "Map_get (store b') k0 = None"
    using nk by (simp add: b'_def Map_get_Map_set Map_get_Map_delete)
  have g1: "Map_get (store b') k1 = Some p'"
    by (simp add: b'_def Map_get_Map_set)
  have fr: "\<forall>k. k \<noteq> k0 \<and> k \<noteq> k1 \<longrightarrow> Map_get (store b') k = Map_get (store b) k"
    by (simp add: b'_def Map_get_Map_set Map_get_Map_delete)
  have c: "(if capture \<or> Map_get (store b) k1 \<noteq> None
         then captureCount p' = captureCount p + 1 \<and> moveCount p' = moveCount p
         else moveCount p' = moveCount p + 1 \<and> captureCount p' = captureCount p)"
    by (simp add: p'_def Piece_capture_def Piece_move_def)
  have f: "piece_x p' = toX" "piece_y p' = toY" "piece_id p' = piece_id p"
    "piece_type p' = piece_type p" "piece_color p' = piece_color p"
    by (simp_all add: p'_def Piece_capture_def Piece_move_def)
  have r0: "Board_get b' (piece_x p) (piece_y p) validate = None"
    "Board_has b' (piece_x p) (piece_y p) validate = False"
    using g0 by (simp_all add: Board_get_def Board_has_def Map_has_def getCoordsKey_def k0_def)
  have r1: "Board_get b' toX toY validate = Some p'"
    using g1 inb' by (simp add: Board_get_def getCoordsKey_def k1_def bnd)
  show ?thesis
    using mv g0 g1 fr c f r0 r1 unfolding k0_def k1_def by blast
qed

lemma client_open_eq:
  "client_open = client0\<lparr>connections := 1, ws := True, connected := True,
      pingInterval := Some 0, nextHandle := 1\<rparr>"
  by (simp add: client_open_def client0_def connect_def increment_def new_ChessClient_def
      ChessClient_maxConnections_def ws_on_open_def schedulePing_def resetReconnecting_def Let_def)

lemma resetBoard_snapshot0:
  "resetBoard new_Board snapshot0 =
    (\<lparr>board_length = 95, radius = 47, centerX = Some 100, centerY = Some 100,
      leftX = Some 53, topY = Some 53, rightX = Some 147, bottomY = Some 147,
      store = [((100, 100), knight7)]\<rparr>, None)"
  by (simp add: resetBoard_def
      new_Board_def Board_clear_def Board__initCoords_def Board_set_centerX_def Board_set_centerY_def
      Board__validateCenterCoords_def center_errors_def Board__setCoords_def snapshot0_def
      knight7_data_def knight7_def new_Piece_def board_defs Let_def)

lemma client1_eq:
  "client1 = client_open\<lparr>board := fst (resetBoard new_Board snapshot0)\<rparr>"
  by (simp add: client1_def handle_initialState_def client_open_eq client0_def
     new_ChessClient_def resetBoard_snapshot0)

lemma board_client1:
  "board client1 = \<lparr>board_length = 95, radius = 47, centerX = Some 100, centerY = Some 100,
     leftX = Some 53, topY = Some 53, rightX = Some 147, bottomY = Some 147,
     store = [((100, 100), knight7)]\<rparr>"
  by (simp add: client1_eq resetBoard_snapshot0)

lemma knight_valid:
  "Board__validatePieceMove (board client1) knight7 101 102 MOVE_TYPE_NORMAL = Inr ()"
  by (simp add: board_client1 Board__validatePieceMove_def board_defs knight7_def canMoveTo_def
      Board_distance_def maxMoveDistance_def Let_def)

lemma board_two_eq:
  "board_two = (board client1)\<lparr>store := [((100, 100), knight7), ((101, 102), pawn8)]\<rparr>"
  by (simp add: board_two_def board_client1 board_defs)

lemma knight_valid_two:
  "Board__validatePieceMove board_two knight7 101 102 MOVE_TYPE_NORMAL = Inr ()"
  by (simp add: board_two_eq board_client1 Board__validatePieceMove_def board_defs knight7_def
      canMoveTo_def Board_distance_def maxMoveDistance_def Let_def)

theorem movePiece_effects_witness:
  "Board__validatePieceMove (board client1) knight7 101 102 MOVE_TYPE_NORMAL = Inr ()
   \<and> Map_get (store (board client1)) (101, 102) = None
   \<and> (\<exists>b' p'. Board_movePiece (board client1) (Some knight7) 101 102 MOVE_TYPE_NORMAL False True
                 = Inr (b', p')
        \<and> Map_get (store b') (100, 100) = None
        \<and> piece_x p' = 101 \<and> piece_y p' = 102
        \<and> moveCount p' = 1 \<and> captureCount p' = 0
        \<and> Map_get (store b') (101, 102) = Some p')
   \<and> Board__validatePieceMove board_two knight7 101 102 MOVE_TYPE_NORMAL = Inr ()
   \<and> Map_get (store board_two) (101, 102) = Some pawn8
   \<and> (\<exists>b' p'. Board_movePiece board_two (Some knight7) 101 102 MOVE_TYPE_NORMAL False True
                 = Inr (b', p')
        \<and> Map_get (store b') (100, 100) = None
        \<and> piece_x p' = 101 \<and> piece_y p' = 102
        \<and> moveCount p' = 0 \<and> captureCount p' = 1
        \<and> Map_get (store b') (101, 102) = Some p')"
proof -
  have f1: "piece_x knight7 = 100" "piece_y knight7 = 100" "moveCount knight7 = 0"
    "captureCount knight7 = 0"
    by (simp_all add: knight7_def)
  have e1: "Map_get (store (board client1)) (101, 102) = None"
    by (simp add: board_client1)
  have e2: "Map_get (store board_two) (101, 102) = Some pawn8"
    by (simp add: board_two_eq)
  have a: "\<exists>b' p'. Board_movePiece (board client1) (Some knight7) 101 102 MOVE_TYPE_NORMAL False True
                 = Inr (b', p')
        \<and> Map_get (store b') (100, 100) = None
        \<and> piece_x p' = 101 \<and> piece_y p' = 102
        \<and> moveCount p' = 1 \<and> captureCount p' = 0
        \<and> Map_get (store b') (101, 102) = Some p'"
    using movePiece_effects[OF knight_valid, of False True]
    unfolding f1 e1 by auto
  have b: "\<exists>b' p'. Board_movePiece board_two (Some knight7) 101 102 MOVE_TYPE_NORMAL False True
                 = Inr (b', p')
        \<and> Map_get (store b') (100, 100) = None
        \<and> piece_x p' = 101 \<and> piece_y p' = 102
        \<and> moveCount p' = 0 \<and> captureCount p' = 1
        \<and> Map_get (store b') (101, 102) = Some p'"
    using movePiece_effects[OF knight_valid_two, of False True]
    unfolding f1 e2 by auto
  show ?thesis using knight_valid knight_valid_two e1 e2 a b by blast
qed

subsection \<open>Move tokens\<close>

lemma getIncrMoveToken_next:
  "getIncrMoveToken s = (t, s') \<Longrightarrow>
     t = next_token (moveToken s) \<and> moveToken s' = t \<and> pendingPieceMoves s' = pendingPieceMoves s"
  by (auto simp: getIncrMoveToken_def next_token_def Let_def split: if_splits)

lemma next_token_le: "next_token t \<le> maxMoveToken"
  by (simp add: next_token_def maxMoveToken_def)

lemma step_RequestMove:
  assumes "distinct (map fst (pendingPieceMoves s))"
    and "step s (RequestMove piece toX toY ty) = (s', toks)"
  shows "distinct (map fst (pendingPieceMoves s')) \<and> chain (moveToken s) toks
         \<and> moveToken s' = last (moveToken s # toks)"
  using assms
  by (auto simp: ChessClient_movePiece_def Let_def distinct_Map_set
      split: option.splits sum.splits prod.splits dest!: getIncrMoveToken_next)

lemma rejectPendingRequests_tokens:
  "rejectPendingRequests s = (s', es) \<Longrightarrow> moveToken s' = moveToken s \<and> pendingPieceMoves s' = []"
  by (auto simp: rejectPendingRequests_def Let_def split: option.splits)

lemma scheduleReconnect_tokens:
  "scheduleReconnect s w r1 r2 = (s', es) \<Longrightarrow>
     moveToken s' = moveToken s \<and> pendingPieceMoves s' = pendingPieceMoves s"
  by (auto simp: scheduleReconnect_def Let_def split: if_splits)

lemma handleDisconnect_tokens:
  assumes "distinct (map fst (pendingPieceMoves s))"
    and "handleDisconnect s code r1 r2 = (e, s', es)"
  shows "distinct (map fst (pendingPieceMoves s')) \<and> moveToken s' = moveToken s"
  using assms
  by (auto simp: handleDisconnect_def Let_def decrement_def clearTimers_def cleanupSocket_def
      split: sum.splits prod.splits if_splits
      dest!: rejectPendingRequests_tokens scheduleReconnect_tokens)

lemma step_other:
  assumes "distinct (map fst (pendingPieceMoves s))"
    and "step s ev = (s', toks)"
    and "\<And>piece toX toY ty. ev \<noteq> RequestMove piece toX toY ty"
  shows "distinct (map fst (pendingPieceMoves s')) \<and> toks = [] \<and> moveToken s' = moveToken s"
proof (cases ev)
  case (RequestMove x11 x12 x13 x14)
  then show ?thesis using assms by simp
next
  case (MoveTimeoutFired x21 x22)
  then show ?thesis using assms by (auto simp: moveTimeout_fired_def distinct_Map_delete)
next
  case (MoveSendFailed x31 x32 x33 x34)
  then show ?thesis using assms by (auto simp: moveSend_failed_def distinct_Map_delete)
next
  case (RequestView x41 x42)
  then show ?thesis using assms
    by (auto simp: ChessClient_moveView_def Let_def split: if_splits sum.splits)
next
  case (ViewTimeoutFired x5)
  then show ?thesis using assms by (auto simp: viewTimeout_fired_def)
next
  case (ViewSendFailed x61 x62 x63)
  then show ?thesis using assms by (auto simp: viewSend_failed_def)
next
  case (InitialStateMsg x71 x72)
  then show ?thesis using assms
    by (auto simp: handle_initialState_def split: prod.splits option.splits)
next
  case (SnapshotMsg x8)
  then show ?thesis using assms
    by (auto simp: handle_snapshot_def split: prod.splits option.splits)
next
  case (ValidMoveMsg x91 x92 x93)
  then show ?thesis using assms
    by (auto simp: handle_validMove_def Let_def distinct_Map_delete split: prod.splits option.splits sum.splits)
next
  case (InvalidMoveMsg x10)
  then show ?thesis using assms
    by (auto simp: handle_invalidMove_def distinct_Map_delete split: option.splits)
next
  case (MovesAndCapturesMsg x111 x112)
  then show ?thesis using assms by (auto simp: handle_movesAndCaptures_def)
next
  case (BulkCaptureMsg x12)
  then show ?thesis using assms by (auto simp: handle_bulkCapture_def)
next
  case Init
  then show ?thesis using assms
    by (auto simp: init_client_def resetState_def resetReconnecting_def connect_def increment_def
        Let_def split: if_splits option.splits sum.splits)
next
  case Connect
  then show ?thesis using assms
    by (auto simp: connect_def increment_def split: if_splits option.splits sum.splits)
next
  case PingTimerFired
  then show ?thesis using assms
    by (auto simp: pingTimer_fired_def Let_def split: if_splits)
next
  case (SocketOpen x14)
  then show ?thesis using assms
    by (auto simp: ws_on_open_def schedulePing_def resetReconnecting_def Let_def split: prod.splits)
next
  case (SocketError x151 x152)
  obtain e s1 es where h: "handleDisconnect (resetReconnecting s False) 1006 x151 x152 = (e, s1, es)"
    by (cases "handleDisconnect (resetReconnecting s False) 1006 x151 x152") auto
  have d: "distinct (map fst (pendingPieceMoves (resetReconnecting s False)))"
    using assms(1) by (simp add: resetReconnecting_def Let_def)
  from handleDisconnect_tokens[OF d h] SocketError assms(2) h show ?thesis
    by (auto simp: ws_on_error_def onWebsocketError_def resetReconnecting_def Let_def)
next
  case (SocketClosed x161 x162 x163)
  obtain e s1 es where h: "handleDisconnect (resetReconnecting s False) x161 x162 x163 = (e, s1, es)"
    by (cases "handleDisconnect (resetReconnecting s False) x161 x162 x163") auto
  have d: "distinct (map fst (pendingPieceMoves (resetReconnecting s False)))"
    using assms(1) by (simp add: resetReconnecting_def Let_def)
  from handleDisconnect_tokens[OF d h] SocketClosed assms(2) h show ?thesis
    by (auto simp: ws_on_close_def onWebsocketClose_def resetReconnecting_def Let_def)
next
  case (PongTimeoutFired x171 x172)
  obtain e s1 es where h: "handleDisconnect s 1006 x171 x172 = (e, s1, es)"
    by (cases "handleDisconnect s 1006 x171 x172") auto
  from handleDisconnect_tokens[OF assms(1) h] PongTimeoutFired assms(2) h show ?thesis
    by (auto simp: pongTimeout_fired_def)
next
  case Disconnect
  obtain e s1 es where h: "handleDisconnect (s\<lparr>autoReconnect := False\<rparr>) 1000 0 0 = (e, s1, es)"
    by (cases "handleDisconnect (s\<lparr>autoReconnect := False\<rparr>) 1000 0 0") auto
  have d: "distinct (map fst (pendingPieceMoves (s\<lparr>autoReconnect := False\<rparr>)))"
    using assms(1) by simp
  from handleDisconnect_tokens[OF d h] Disconnect assms(2) h show ?thesis
    by (auto simp: disconnect_def onWebsocketClose_def)
qed

lemma step_tokens:
  assumes "distinct (map fst (pendingPieceMoves s))" and "step s ev = (s', toks)"
  shows "distinct (map fst (pendingPieceMoves s')) \<and> chain (moveToken s) toks
         \<and> moveToken s' = last (moveToken s # toks)"
proof (cases "\<exists>piece toX toY ty. ev = RequestMove piece toX toY ty")
  case True
  then show ?thesis using step_RequestMove assms by blast
next
  case False
  then show ?thesis using step_other[OF assms] by simp
qed

lemma chain_append: "chain t (xs @ ys) = (chain t xs \<and> chain (last (t # xs)) ys)"
  by (induction xs arbitrary: t) auto

lemma run_tokens:
  "distinct (map fst (pendingPieceMoves s)) \<Longrightarrow> run s evs = (s', toks) \<Longrightarrow>
     distinct (map fst (pendingPieceMoves s')) \<and> chain (moveToken s) toks
     \<and> moveToken s' = last (moveToken s # toks)"
proof (induction evs arbitrary: s s' toks)
  case Nil
  then show ?case by simp
next
  case (Cons ev evs)
  obtain s1 toks1 where st: "step s ev = (s1, toks1)" by (cases "step s ev") auto
  obtain s2 toks2 where rn: "run s1 evs = (s2, toks2)" by (cases "run s1 evs") auto
  from Cons.prems(2) st rn have eq: "s' = s2" "toks = toks1 @ toks2" by auto
  from step_tokens[OF Cons.prems(1) st]
  have a: "distinct (map fst (pendingPieceMoves s1))" "chain (moveToken s) toks1"
    "moveToken s1 = last (moveToken s # toks1)" by auto
  from Cons.IH[OF a(1) rn]
  have b: "distinct (map fst (pendingPieceMoves s2))" "chain (moveToken s1) toks2"
    "moveToken s2 = last (moveToken s1 # toks2)" by auto
  show ?case using a b eq by (auto simp: chain_append)
qed

lemma chain_range: "chain t toks \<Longrightarrow> a \<in> set toks \<Longrightarrow> 1 \<le> a \<and> a \<le> maxMoveToken"
  by (induction toks arbitrary: t) (auto simp: next_token_def maxMoveToken_def split: if_splits)

lemma chain_nth: "chain t toks \<Longrightarrow> Suc i < length toks \<Longrightarrow> toks ! Suc i = next_token (toks ! i)"
proof (induction toks arbitrary: t i)
  case Nil
  then show ?case by simp
next
  case (Cons a toks)
  then show ?case by (cases i; cases toks) auto
qed

lemma requested_moves_append: "requested_moves (xs @ ys) = requested_moves xs @ requested_moves ys"
  by (induction xs rule: requested_moves.induct) auto

lemma settled_append: "settled (xs @ ys) = settled xs @ settled ys"
  by (induction xs rule: settled.induct) auto

lemma run_append:
  "run s (xs @ ys) = (fst (run (fst (run s xs)) ys), snd (run s xs) @ snd (run (fst (run s xs)) ys))"
  by (induction xs arbitrary: s) (auto split: prod.splits)

lemma run_effects_append:
  "run_effects s (xs @ ys) = run_effects s xs @ run_effects (fst (run s xs)) ys"
  by (induction xs arbitrary: s) (auto split: prod.splits)

lemma requested_reject_all:
  "requested_moves (concat (map (\<lambda>(tok, pending). reject_move pending) m)) = []"
  by (induction m) (auto simp: reject_move_def requested_moves_append)

lemma requested_rejectPendingRequests: "requested_moves (snd (rejectPendingRequests s)) = []"
  by (auto simp: rejectPendingRequests_def Let_def requested_moves_append requested_reject_all
      split: option.splits)

lemma requested_clear_timer: "requested_moves (clear_timer h) = []"
  by (cases h) auto

lemma requested_clearTimers: "requested_moves (snd (clearTimers s)) = []"
  by (simp add: clearTimers_def requested_moves_append requested_clear_timer)

lemma requested_cleanupSocket: "requested_moves (snd (cleanupSocket s)) = []"
  by (simp add: cleanupSocket_def)

lemma requested_scheduleReconnect: "requested_moves (snd (scheduleReconnect s w r1 r2)) = []"
  by (simp add: scheduleReconnect_def Let_def)

lemma requested_handleDisconnect: "requested_moves (snd (snd (handleDisconnect s code r1 r2))) = []"
  by (simp add: handleDisconnect_def Let_def case_prod_beta requested_moves_append
      requested_rejectPendingRequests requested_clearTimers requested_cleanupSocket
      requested_scheduleReconnect split: sum.splits)

lemma step_requests: "map fst (requested_moves (effects_of s ev)) = snd (step s ev)"
proof (cases ev)
  case (RequestMove piece toX toY ty)
  then show ?thesis
    by (auto simp: ChessClient_movePiece_def Let_def getIncrMoveToken_def
        split: option.splits sum.splits prod.splits)
next
  case (RequestView cX cY)
  then show ?thesis by (simp add: ChessClient_moveView_def Let_def split: sum.splits)
next
  case (SocketError r1 r2)
  then show ?thesis
    by (simp add: ws_on_error_def onWebsocketError_def case_prod_beta requested_handleDisconnect)
next
  case (SocketClosed code r1 r2)
  then show ?thesis by (simp add: ws_on_close_def onWebsocketClose_def requested_handleDisconnect)
next
  case (PongTimeoutFired r1 r2)
  then show ?thesis by (simp add: pongTimeout_fired_def requested_handleDisconnect)
next
  case Disconnect
  then show ?thesis by (simp add: disconnect_def onWebsocketClose_def requested_handleDisconnect)
next
  case (SocketOpen r)
  then show ?thesis
    by (simp add: ws_on_open_def schedulePing_def Let_def requested_moves_append requested_clear_timer)
qed (auto simp: moveTimeout_fired_def moveSend_failed_def viewTimeout_fired_def viewSend_failed_def
      handle_initialState_def handle_snapshot_def handle_validMove_def handle_invalidMove_def
      pingTimer_fired_def Let_def split: prod.splits option.splits sum.splits)

lemma run_requests: "map fst (requested_moves (run_effects s evs)) = snd (run s evs)"
  by (induction evs arbitrary: s)
     (auto simp: requested_moves_append step_requests split: prod.splits)

lemma chain_closed:
  "chain t toks \<Longrightarrow> t \<le> maxMoveToken \<Longrightarrow> i < length toks \<Longrightarrow>
     toks ! i = (t + i) mod maxMoveToken + 1"
proof (induction toks arbitrary: t i)
  case Nil
  then show ?case by simp
next
  case (Cons a toks)
  have a: "a = next_token t" "chain a toks" using Cons.prems(1) by auto
  have le: "a \<le> maxMoveToken" using a(1) next_token_le by simp
  show ?case
  proof (cases i)
    case 0
    then show ?thesis using a(1) Cons.prems(2)
      by (auto simp: next_token_def maxMoveToken_def)
  next
    case (Suc j)
    then have "j < length toks" using Cons.prems(3) by simp
    from Cons.IH[OF a(2) le this] have "toks ! j = (a + j) mod maxMoveToken + 1" .
    moreover have "(a + j) mod maxMoveToken = (t + Suc j) mod maxMoveToken"
    proof (cases "t \<ge> maxMoveToken")
      case True
      then have "t = maxMoveToken" using Cons.prems(2) by simp
      then have "a = 1" "t + Suc j = maxMoveToken + (1 + j)" using a(1) by (simp_all add: next_token_def)
      then show ?thesis by (simp only: mod_add_self1)
    next
      case False
      then show ?thesis using a(1) by (simp add: next_token_def)
    qed
    ultimately show ?thesis using Suc by simp
  qed
qed


lemma movePiece_success:
  assumes "Board__validatePieceMove (board s) p toX toY ty = Inr ()"
  shows "ChessClient_movePiece s (Some p) toX toY ty =
     (Inr (nextHandle s),
      s\<lparr>moveToken := next_token (moveToken s),
        pendingPieceMoves := Map_set (next_token (moveToken s))
           \<lparr>pm_promise = nextHandle s, pm_piece = p, pm_fromX = piece_x p, pm_fromY = piece_y p,
            pm_toX = toX, pm_toY = toY, pm_timeout = nextHandle s + 1\<rparr> (pendingPieceMoves s),
        nextHandle := nextHandle s + 2\<rparr>,
      [SetTimeout (nextHandle s + 1) (MoveTimeoutCallback (next_token (moveToken s)) (nextHandle s)) moveTimeout,
       SendRequest (MoveRequest (piece_id p) (piece_x p) (piece_y p) toX toY ty (next_token (moveToken s)))])"
  using assms
  by (simp add: ChessClient_movePiece_def getIncrMoveToken_def next_token_def Let_def)

lemma step_knight:
  assumes "board s = board client1"
  shows "step s knight_request =
     (s\<lparr>moveToken := next_token (moveToken s),
        pendingPieceMoves := Map_set (next_token (moveToken s))
           \<lparr>pm_promise = nextHandle s, pm_piece = knight7, pm_fromX = 100, pm_fromY = 100,
            pm_toX = 101, pm_toY = 102, pm_timeout = nextHandle s + 1\<rparr> (pendingPieceMoves s),
        nextHandle := nextHandle s + 2\<rparr>, [next_token (moveToken s)])"
    and "effects_of s knight_request =
     [SetTimeout (nextHandle s + 1) (MoveTimeoutCallback (next_token (moveToken s)) (nextHandle s)) moveTimeout,
      SendRequest (MoveRequest 7 100 100 101 102 MOVE_TYPE_NORMAL (next_token (moveToken s)))]"
proof -
  have v: "Board__validatePieceMove (board s) knight7 101 102 MOVE_TYPE_NORMAL = Inr ()"
    using knight_valid assms by simp
  have k: "piece_x knight7 = 100" "piece_y knight7 = 100" "piece_id knight7 = 7"
    by (simp_all add: knight7_def)
  show "step s knight_request =
     (s\<lparr>moveToken := next_token (moveToken s),
        pendingPieceMoves := Map_set (next_token (moveToken s))
           \<lparr>pm_promise = nextHandle s, pm_piece = knight7, pm_fromX = 100, pm_fromY = 100,
            pm_toX = 101, pm_toY = 102, pm_timeout = nextHandle s + 1\<rparr> (pendingPieceMoves s),
        nextHandle := nextHandle s + 2\<rparr>, [next_token (moveToken s)])"
    by (simp add: knight_request_def movePiece_success[OF v] k)
  show "effects_of s knight_request =
     [SetTimeout (nextHandle s + 1) (MoveTimeoutCallback (next_token (moveToken s)) (nextHandle s)) moveTimeout,
      SendRequest (MoveRequest 7 100 100 101 102 MOVE_TYPE_NORMAL (next_token (moveToken s)))]"
    by (simp add: knight_request_def movePiece_success[OF v] k)
qed

lemma next_token_mod:
  "t \<le> maxMoveToken \<Longrightarrow> (next_token t + i) mod maxMoveToken = (t + Suc i) mod maxMoveToken"
proof (cases "t \<ge> maxMoveToken")
  case True
  assume "t \<le> maxMoveToken"
  then have "t = maxMoveToken" using True by simp
  then have "next_token t + i = 1 + i" "t + Suc i = maxMoveToken + (1 + i)"
    by (simp_all add: next_token_def)
  then show ?thesis by (simp only: mod_add_self1)
next
  case False
  then show ?thesis by (simp add: next_token_def)
qed

lemma knight_requests:
  assumes "board s = board client1" "moveToken s \<le> maxMoveToken"
  shows "requested_moves (run_effects s (replicate n knight_request))
           = map (\<lambda>i. ((moveToken s + i) mod maxMoveToken + 1, nextHandle s + 2 * i)) [0..<n]
       \<and> settled (run_effects s (replicate n knight_request)) = []
       \<and> board (fst (run s (replicate n knight_request))) = board client1
       \<and> nextHandle (fst (run s (replicate n knight_request))) = nextHandle s + 2 * n"
  using assms
proof (induction n arbitrary: s)
  case 0
  then show ?case by simp
next
  case (Suc n)
  define s1 where "s1 = fst (step s knight_request)"
  have s1: "board s1 = board client1" "moveToken s1 = next_token (moveToken s)"
    "nextHandle s1 = nextHandle s + 2"
    unfolding s1_def by (simp_all add: step_knight(1)[OF Suc.prems(1)] Suc.prems(1))
  have le: "moveToken s1 \<le> maxMoveToken" using s1(2) next_token_le by simp
  note ih = Suc.IH[OF s1(1) le]
  have t0: "next_token (moveToken s) = (moveToken s + 0) mod maxMoveToken + 1"
    using Suc.prems(2) by (auto simp: next_token_def maxMoveToken_def)
  have m: "map (\<lambda>i. ((moveToken s + i) mod maxMoveToken + 1, nextHandle s + 2 * i)) [0..<Suc n]
      = ((moveToken s + 0) mod maxMoveToken + 1, nextHandle s)
        # map (\<lambda>i. ((moveToken s1 + i) mod maxMoveToken + 1, nextHandle s1 + 2 * i)) [0..<n]"
    unfolding map_upt_Suc s1(2,3) by (simp add: next_token_mod[OF Suc.prems(2)])
  have r: "run s (replicate (Suc n) knight_request)
      = (fst (run s1 (replicate n knight_request)),
         next_token (moveToken s) # snd (run s1 (replicate n knight_request)))"
    by (simp add: s1_def step_knight(1)[OF Suc.prems(1)] split: prod.splits)
  have e: "run_effects s (replicate (Suc n) knight_request)
      = effects_of s knight_request @ run_effects s1 (replicate n knight_request)"
    by (simp add: s1_def)
  show ?case
    unfolding m e r requested_moves_append settled_append
    using ih by (simp add: step_knight(2)[OF Suc.prems(1)] s1 t0)
qed

lemma prefix_run:
  "run client0 [Connect, SocketOpen 0, InitialStateMsg snapshot0 0] = (client1, [])"
proof -
  have o: "fst (ws_on_open (snd (connect client0)) 0) = client_open"
    by (simp add: client_open_def)
  show ?thesis by (simp add: o client1_def[symmetric])
qed

lemma prefix_effects:
  "requested_moves (run_effects client0 [Connect, SocketOpen 0, InitialStateMsg snapshot0 0]) = []"
  "settled (run_effects client0 [Connect, SocketOpen 0, InitialStateMsg snapshot0 0]) = [0]"
proof -
  have o: "fst (ws_on_open (snd (connect client0)) 0) = client_open"
    by (simp add: client_open_def)
  have b: "board client_open = new_Board"
    by (simp add: client_open_eq client0_def new_ChessClient_def)
  have e1: "snd (ws_on_open (snd (connect client0)) 0)
      = [Log ''Websocket opened.'', SetTimeout 0 PingCallback (getRetryTime 1200 (4000 / 2) False 0 0)]"
    by (simp add: client0_def connect_def increment_def new_ChessClient_def
      ChessClient_maxConnections_def ws_on_open_def schedulePing_def resetReconnecting_def Let_def)
  have e2: "snd (handle_initialState client_open snapshot0 0) = [Resolve 0]"
    by (simp add: handle_initialState_def b resetBoard_snapshot0)
  show "requested_moves (run_effects client0 [Connect, SocketOpen 0, InitialStateMsg snapshot0 0]) = []"
    by (simp add: o e1 e2)
  show "settled (run_effects client0 [Connect, SocketOpen 0, InitialStateMsg snapshot0 0]) = [0]"
    by (simp add: o e1 e2)
qed

lemma client1_tokens: "moveToken client1 = 0" "nextHandle client1 = 1"
  by (simp_all add: client1_eq client_open_eq client0_def new_ChessClient_def)

lemma request_events_run:
  "requested_moves (run_effects client0 (request_events n))
     = map (\<lambda>i. (i mod maxMoveToken + 1, 1 + 2 * i)) [0..<n]"
  "settled (run_effects client0 (request_events n)) = [0]"
  "snd (run client0 (request_events n)) = map (\<lambda>i. i mod maxMoveToken + 1) [0..<n]"
  "nextHandle (fst (run client0 (request_events n))) = 1 + 2 * n"
proof -
  have f: "fst (run client0 [Connect, SocketOpen 0, InitialStateMsg snapshot0 0]) = client1"
    by (simp only: prefix_run fst_conv)
  have le: "moveToken client1 \<le> maxMoveToken" by (simp add: client1_tokens)
  note k = knight_requests[OF refl le, of n, unfolded client1_tokens]
  show a: "requested_moves (run_effects client0 (request_events n))
     = map (\<lambda>i. (i mod maxMoveToken + 1, 1 + 2 * i)) [0..<n]"
    unfolding request_events_def run_effects_append requested_moves_append f prefix_effects
    using k by simp
  show "settled (run_effects client0 (request_events n)) = [0]"
    unfolding request_events_def run_effects_append settled_append f prefix_effects
    using k by simp
  show "snd (run client0 (request_events n)) = map (\<lambda>i. i mod maxMoveToken + 1) [0..<n]"
    unfolding run_requests[symmetric] a by (simp add: comp_def)
  show "nextHandle (fst (run client0 (request_events n))) = 1 + 2 * n"
    unfolding request_events_def run_append f fst_conv using k by simp
qed

lemma last_request_entry:
  "map_option pm_promise
     (Map_get (pendingPieceMoves (fst (run client0 (request_events (Suc n)))))
        (n mod maxMoveToken + 1)) = Some (1 + 2 * n)"
proof -
  define sn where "sn = fst (run client0 (request_events n))"
  have f: "fst (run client0 [Connect, SocketOpen 0, InitialStateMsg snapshot0 0]) = client1"
    by (simp only: prefix_run fst_conv)
  have le: "moveToken client1 \<le> maxMoveToken" by (simp add: client1_tokens)
  have b: "board sn = board client1"
    unfolding sn_def request_events_def run_append f fst_conv
    using knight_requests[OF refl le, of n] by simp
  have h: "nextHandle sn = 1 + 2 * n"
    unfolding sn_def by (rule request_events_run(4))
  have ev: "request_events (Suc n) = request_events n @ [knight_request]"
    unfolding request_events_def by (simp add: replicate_append_same)
  have fin: "run client0 (request_events (Suc n))
      = (fst (step sn knight_request), snd (run client0 (request_events n)) @ snd (step sn knight_request))"
    unfolding ev run_append sn_def by (simp split: prod.splits)
  have "snd (run client0 (request_events (Suc n))) ! n = n mod maxMoveToken + 1"
    unfolding request_events_run(3) by (simp del: upt_Suc)
  moreover have "snd (run client0 (request_events (Suc n))) ! n = next_token (moveToken sn)"
    unfolding fin snd_conv step_knight(1)[OF b]
    by (simp add: nth_append request_events_run(3))
  ultimately have t: "next_token (moveToken sn) = n mod maxMoveToken + 1" by simp
  show ?thesis
    unfolding fin fst_conv step_knight(1)[OF b]
    by (simp add: Map_get_Map_set t h)
qed

lemma Map_set_subset: "set (Map_set k v m) \<subseteq> insert (k, v) (set m)"
  by (induction m) auto

lemma Map_delete_subset: "set (Map_delete k m) \<subseteq> set m"
  by (induction m) auto

lemma handleDisconnect_table:
  "pendingPieceMoves (fst (snd (handleDisconnect s code r1 r2))) = pendingPieceMoves s
   \<or> pendingPieceMoves (fst (snd (handleDisconnect s code r1 r2))) = []"
proof (cases "handleDisconnect s code r1 r2")
  case (fields e s' es)
  show ?thesis
    using fields
    by (auto simp: handleDisconnect_def Let_def decrement_def clearTimers_def cleanupSocket_def
      split: sum.splits prod.splits if_splits
      dest!: rejectPendingRequests_tokens scheduleReconnect_tokens)
qed

lemma step_table:
  "set (pendingPieceMoves (fst (step s ev)))
     \<subseteq> set (pendingPieceMoves s)
       \<union> {e. (fst e, pm_promise (snd e)) \<in> set (requested_moves (effects_of s ev))}"
proof (cases ev)
  case (RequestMove piece toX toY ty)
  then show ?thesis
    using Map_set_subset[of "next_token (moveToken s)" _ "pendingPieceMoves s"]
    by (auto simp: ChessClient_movePiece_def Let_def getIncrMoveToken_def next_token_def
        split: option.splits sum.splits prod.splits if_splits dest!: subsetD[OF Map_set_subset])
next
  case (MoveTimeoutFired tok promise)
  then show ?thesis using Map_delete_subset[of tok "pendingPieceMoves s"]
    by (auto simp: moveTimeout_fired_def)
next
  case (MoveSendFailed tok promise timer e)
  then show ?thesis using Map_delete_subset[of tok "pendingPieceMoves s"]
    by (auto simp: moveSend_failed_def)
next
  case (RequestView cX cY)
  then show ?thesis by (auto simp: ChessClient_moveView_def Let_def split: if_splits sum.splits)
next
  case (ValidMoveMsg tok captured live)
  then show ?thesis using Map_delete_subset[of tok "pendingPieceMoves s"]
    by (auto simp: handle_validMove_def Let_def split: prod.splits option.splits sum.splits)
next
  case (InvalidMoveMsg tok)
  then show ?thesis using Map_delete_subset[of tok "pendingPieceMoves s"]
    by (auto simp: handle_invalidMove_def split: option.splits)
next
  case (SocketError r1 r2)
  then show ?thesis
    using handleDisconnect_table[of "resetReconnecting s False" 1006 r1 r2]
    by (auto simp: ws_on_error_def onWebsocketError_def resetReconnecting_def Let_def case_prod_beta)
next
  case (SocketClosed code r1 r2)
  then show ?thesis
    using handleDisconnect_table[of "resetReconnecting s False" code r1 r2]
    by (auto simp: ws_on_close_def onWebsocketClose_def resetReconnecting_def Let_def)
next
  case (PongTimeoutFired r1 r2)
  then show ?thesis
    using handleDisconnect_table[of s 1006 r1 r2] by (auto simp: pongTimeout_fired_def)
next
  case Disconnect
  then show ?thesis
    using handleDisconnect_table[of "s\<lparr>autoReconnect := False\<rparr>" 1000 0 0]
    by (auto simp: disconnect_def onWebsocketClose_def)
next
  case (SocketOpen r)
  then show ?thesis
    by (auto simp: ws_on_open_def schedulePing_def resetReconnecting_def Let_def split: prod.splits)
next
  case Init
  then show ?thesis
    by (auto simp: init_client_def resetState_def resetReconnecting_def connect_def increment_def
        Let_def split: if_splits option.splits sum.splits)
next
  case Connect
  then show ?thesis
    by (auto simp: connect_def increment_def split: if_splits option.splits sum.splits)
qed (auto simp: viewTimeout_fired_def viewSend_failed_def handle_initialState_def
      handle_snapshot_def handle_movesAndCaptures_def handle_bulkCapture_def pingTimer_fired_def
      Let_def split: prod.splits option.splits if_splits)

lemma run_table:
  "set (pendingPieceMoves (fst (run s evs)))
     \<subseteq> set (pendingPieceMoves s)
       \<union> {e. (fst e, pm_promise (snd e)) \<in> set (requested_moves (run_effects s evs))}"
proof (induction evs arbitrary: s)
  case Nil
  then show ?case by simp
next
  case (Cons ev evs)
  have r: "fst (run s (ev # evs)) = fst (run (fst (step s ev)) evs)"
    by (simp split: prod.splits)
  show ?case
    unfolding r using Cons.IH[of "fst (step s ev)"] step_table[of s ev]
    by (auto simp: requested_moves_append)
qed

text \<open>
  C3, amended. In every run of a new client, whatever happens between the allocations:
  every move token allocated lies in [1, 65535]; the allocations return 1, 2, ... in
  turn, the \<open>i\<close>-th of them (counted from 0) \<open>i mod 65535 + 1\<close>, so that the one
  after 65535 returns 1 and two allocations return the same token only when the number
  of allocations from one to the other is a multiple of 65535; the move requests made,
  in order, carry exactly these tokens; and at the end no two entries of the table of
  pending moves have the same token, and every entry stands under the token of the
  request whose promise it holds.
\<close>

theorem move_tokens:
  assumes "run (new_ChessClient jitter delay retries conns) evs = (s', toks)"
  shows "(\<forall>t \<in> set toks. 1 \<le> t \<and> t \<le> 65535)
       \<and> (\<forall>i < length toks. toks ! i = i mod 65535 + 1)
       \<and> (\<forall>i. Suc i < length toks \<and> toks ! i = 65535 \<longrightarrow> toks ! Suc i = 1)
       \<and> (\<forall>i j. i < j \<and> j < length toks \<and> toks ! i = toks ! j \<longrightarrow> 65535 dvd j - i)
       \<and> map fst (requested_moves (run_effects (new_ChessClient jitter delay retries conns) evs)) = toks
       \<and> distinct (map fst (pendingPieceMoves s'))
       \<and> (\<forall>e \<in> set (pendingPieceMoves s').
            (fst e, pm_promise (snd e))
              \<in> set (requested_moves (run_effects (new_ChessClient jitter delay retries conns) evs)))"
proof -
  have d: "distinct (map fst (pendingPieceMoves (new_ChessClient jitter delay retries conns)))"
    by (simp add: new_ChessClient_def)
  from run_tokens[OF d assms]
  have c: "chain 0 toks" and d': "distinct (map fst (pendingPieceMoves s'))"
    by (simp_all add: new_ChessClient_def)
  have m: "maxMoveToken = 65535" by (simp add: maxMoveToken_def)
  have r: "\<forall>t \<in> set toks. 1 \<le> t \<and> t \<le> 65535"
    using chain_range[OF c] m by auto
  have cl: "\<forall>i < length toks. toks ! i = i mod 65535 + 1"
    using chain_closed[OF c] m by simp
  have w: "\<forall>i. Suc i < length toks \<and> toks ! i = 65535 \<longrightarrow> toks ! Suc i = 1"
    using chain_nth[OF c] m by (auto simp: next_token_def)
  have sep: "\<forall>i j. i < j \<and> j < length toks \<and> toks ! i = toks ! j \<longrightarrow> 65535 dvd j - i"
  proof (intro allI impI)
    fix i j :: nat
    assume a: "i < j \<and> j < length toks \<and> toks ! i = toks ! j"
    then have "i < length toks" "j < length toks" by simp_all
    then have "toks ! i = i mod 65535 + 1" "toks ! j = j mod 65535 + 1" using cl by blast+
    then have "j mod 65535 = i mod 65535" using a by simp
    moreover have "i \<le> j" using a by simp
    ultimately show "65535 dvd j - i" by (simp add: mod_eq_dvd_iff_nat)
  qed
  have q: "map fst (requested_moves (run_effects (new_ChessClient jitter delay retries conns) evs)) = toks"
    using run_requests[of "new_ChessClient jitter delay retries conns" evs] assms by simp
  have tb: "\<forall>e \<in> set (pendingPieceMoves s').
            (fst e, pm_promise (snd e))
              \<in> set (requested_moves (run_effects (new_ChessClient jitter delay retries conns) evs))"
    using run_table[of "new_ChessClient jitter delay retries conns" evs] assms
    by (auto simp: new_ChessClient_def)
  show ?thesis using r cl w sep q d' tb by blast
qed

text \<open>
  C3, as stated, fails. 65536 moves are requested and none is answered: the first and
  the last request both carry the token 1 and neither is settled, while the table holds
  under the token 1 the entry of the last request only.
\<close>

theorem tokens_shared_after_wrap:
  "(1, 1) \<in> set (unsettled_moves (run_effects client0 (request_events 65536)))
   \<and> (1, 131071) \<in> set (unsettled_moves (run_effects client0 (request_events 65536)))
   \<and> map_option pm_promise
       (Map_get (pendingPieceMoves (fst (run client0 (request_events 65536)))) 1) = Some 131071"
proof -
  have m: "maxMoveToken = 65535" by (simp add: maxMoveToken_def)
  let ?f = "\<lambda>i::nat. (i mod 65535 + 1, 1 + 2 * i)"
  have a: "(1, 1) \<in> ?f ` {0..<65536}"
    by (rule image_eqI[where x = 0]) simp_all
  have b: "(1, 131071) \<in> ?f ` {0..<65536}"
    by (rule image_eqI[where x = 65535]) simp_all
  have u: "set (unsettled_moves (run_effects client0 (request_events 65536)))
      = {x \<in> ?f ` {0..<65536}. snd x \<noteq> 0}"
    unfolding unsettled_moves_def request_events_run m by (auto simp: case_prod_beta)
  have e: "map_option pm_promise
       (Map_get (pendingPieceMoves (fst (run client0 (request_events (Suc 65535)))))
          (65535 mod maxMoveToken + 1)) = Some (1 + 2 * 65535)"
    by (rule last_request_entry)
  have e': "map_option pm_promise
       (Map_get (pendingPieceMoves (fst (run client0 (request_events 65536)))) 1) = Some 131071"
    using e unfolding m by simp
  show ?thesis using a b u e' by simp
qed

lemma pending_client1: "pendingViewMove client1 = None" "pendingPieceMoves client1 = []"
  by (simp_all add: client1_eq client_open_eq client0_def new_ChessClient_def)

lemma two_requests_table:
  "map (\<lambda>e. (fst e, pm_promise (snd e))) (pendingPieceMoves (fst (run client0 (request_events 2))))
     = [(1, 1), (2, 3)]"
proof -
  have f: "fst (run client0 [Connect, SocketOpen 0, InitialStateMsg snapshot0 0]) = client1"
    by (simp only: prefix_run fst_conv)
  have r: "replicate 2 knight_request = [knight_request, knight_request]"
    by (simp add: numeral_2_eq_2)
  define s1 where "s1 = fst (step client1 knight_request)"
  have s1: "board s1 = board client1" "moveToken s1 = 1" "nextHandle s1 = 3"
    "map (\<lambda>e. (fst e, pm_promise (snd e))) (pendingPieceMoves s1) = [(1, 1)]"
    unfolding s1_def
    by (simp_all add: step_knight(1)[OF refl] client1_tokens pending_client1 next_token_def
        maxMoveToken_def)
  have p1: "pendingPieceMoves s1 = [(1, \<lparr>pm_promise = 1, pm_piece = knight7, pm_fromX = 100,
      pm_fromY = 100, pm_toX = 101, pm_toY = 102, pm_timeout = 2\<rparr>)]"
    unfolding s1_def
    by (simp add: step_knight(1)[OF refl] client1_tokens pending_client1 next_token_def
        maxMoveToken_def)
  have "fst (run client0 (request_events 2)) = fst (step s1 knight_request)"
    unfolding request_events_def run_append f r s1_def by (simp split: prod.splits)
  then show ?thesis
    by (simp add: step_knight(1)[OF s1(1)] s1(2,3) p1 next_token_def maxMoveToken_def)
qed

theorem move_tokens_witness:
  "length (snd (run client0 (request_events 65536))) = 65536
   \<and> snd (run client0 (request_events 65536)) ! 0 = 1
   \<and> snd (run client0 (request_events 65536)) ! 1 = 2
   \<and> snd (run client0 (request_events 65536)) ! 65534 = 65535
   \<and> snd (run client0 (request_events 65536)) ! 65535 = 1
   \<and> distinct (map fst (pendingPieceMoves (fst (run client0 (request_events 65536)))))
   \<and> snd (run client0 (request_events 2)) = [1, 2]
   \<and> map (\<lambda>e. (fst e, pm_promise (snd e))) (pendingPieceMoves (fst (run client0 (request_events 2))))
       = [(1, 1), (2, 3)]"
proof -
  have l: "length (snd (run client0 (request_events 65536))) = 65536"
    unfolding request_events_run(3) by simp
  have u: "[0..<2] = [0, 1 :: nat]" by (simp add: numeral_2_eq_2)
  have t: "snd (run client0 (request_events 2)) = [1, 2]"
    unfolding request_events_run(3) u by (simp add: maxMoveToken_def)
  have a: "length (snd (run client0 (request_events 65536))) = 65536
   \<and> snd (run client0 (request_events 65536)) ! 0 = 1
   \<and> snd (run client0 (request_events 65536)) ! 1 = 2
   \<and> snd (run client0 (request_events 65536)) ! 65534 = 65535
   \<and> snd (run client0 (request_events 65536)) ! 65535 = 1
   \<and> distinct (map fst (pendingPieceMoves (fst (run client0 (request_events 65536)))))"
    using move_tokens[of 4000 15000 5 0 "request_events 65536"
        "fst (run client0 (request_events 65536))" "snd (run client0 (request_events 65536))"]
    unfolding l by (simp add: client0_def)
  show ?thesis using a t two_requests_table by blast
qed

subsection \<open>View requests\<close>

lemma validateCenter_ok:
  "minCenterCoords \<le> cX \<Longrightarrow> cX \<le> maxCenterCoords \<Longrightarrow>
   minCenterCoords \<le> cY \<Longrightarrow> cY \<le> maxCenterCoords \<Longrightarrow>
   Board__validateCenterCoords (Some cX) (Some cY) m = Inr ()"
  by (simp add: Board__validateCenterCoords_def center_errors_def)

lemma moveView_far:
  assumes "pendingViewMove s = None"
    and "minCenterCoords \<le> cX" "cX \<le> maxCenterCoords"
    and "minCenterCoords \<le> cY" "cY \<le> maxCenterCoords"
    and "chebyshev (cX - num (centerX (board s))) (cY - num (centerY (board s))) \<ge> 12"
  shows "ChessClient_moveView s cX cY =
     (Inr (nextHandle s),
      s\<lparr>pendingViewMove := Some \<lparr>pv_promise = nextHandle s, pv_timeout = nextHandle s + 1\<rparr>,
        nextHandle := nextHandle s + 2\<rparr>,
      [SetTimeout (nextHandle s + 1) (ViewTimeoutCallback (nextHandle s)) (4 * moveTimeout),
       SendRequest (Subscribe cX cY)])"
  using assms
  by (simp add: ChessClient_moveView_def validateCenter_ok Board_distance_int minViewDist_def Let_def)

lemma client_viewing_eq:
  "client_viewing = client1\<lparr>pendingViewMove := Some \<lparr>pv_promise = 1, pv_timeout = 2\<rparr>,
     nextHandle := 3\<rparr>"
proof -
  have n: "nextHandle client1 = 1"
    by (simp add: client1_eq client_open_eq)
  show ?thesis
    unfolding client_viewing_def
    by (subst moveView_far)
       (simp_all add: pending_client1 board_client1 chebyshev_def minCenterCoords_def
          maxCenterCoords_def boardSize_def totalSize_def n)
qed

text \<open>
  While a view move is in the slot, \<open>moveView\<close> fails at once with the error
  \<open>Already waiting for view move\<close>, whatever the coordinates are (so before they are
  validated), with no effect (nothing is sent, no timer is armed) and with the client,
  and so the entry in the slot, unchanged.
\<close>

lemma moveView_while_pending:
  assumes "pendingViewMove s = Some pending"
  shows "ChessClient_moveView s cX cY = (Inl (ChessError ''Already waiting for view move''), s, [])"
  using assms by (simp add: ChessClient_moveView_def)

lemma moveView_client1:
  "ChessClient_moveView client1 120 100 =
     (Inr 1, client_viewing,
      [SetTimeout 2 (ViewTimeoutCallback 1) (4 * moveTimeout), SendRequest (Subscribe 120 100)])"
proof -
  have n: "nextHandle client1 = 1" by (simp add: client1_eq client_open_eq)
  have a: "ChessClient_moveView client1 120 100 =
     (Inr (nextHandle client1),
      client1\<lparr>pendingViewMove := Some \<lparr>pv_promise = nextHandle client1, pv_timeout = nextHandle client1 + 1\<rparr>,
        nextHandle := nextHandle client1 + 2\<rparr>,
      [SetTimeout (nextHandle client1 + 1) (ViewTimeoutCallback (nextHandle client1)) (4 * moveTimeout),
       SendRequest (Subscribe 120 100)])"
    by (rule moveView_far)
       (simp_all add: pending_client1 board_client1 chebyshev_def minCenterCoords_def
          maxCenterCoords_def boardSize_def totalSize_def)
  show ?thesis unfolding a n by (simp add: client_viewing_eq)
qed

lemma disconnect_viewing:
  "disconnect client_viewing 0 0 =
     (None,
      client1\<lparr>autoReconnect := False, connected := False, connections := 0, ws := False,
        pingInterval := None, pendingViewMove := None, nextHandle := 3\<rparr>,
      [Log ''Websocket closed with code:'', ClearTimeout 2,
       Reject 1 (ChessError ''Connection closed''), ClearTimeout 0, SocketClose])"
  by (simp add: disconnect_def onWebsocketClose_def handleDisconnect_def decrement_def
      rejectPendingRequests_def clearTimers_def cleanupSocket_def Let_def
      client_viewing_eq client1_eq client_open_eq client0_def new_ChessClient_def
      ChessClient_maxConnections_def)

lemma client_closed_eq:
  "client_closed = client1\<lparr>autoReconnect := False, connected := False, connections := 0, ws := False,
        pingInterval := None, pendingViewMove := None, nextHandle := 3\<rparr>"
  by (simp add: client_closed_def disconnect_viewing)

lemma moveView_closed:
  "ChessClient_moveView client_closed 130 100 =
     (Inr 3, client_closed\<lparr>pendingViewMove := Some \<lparr>pv_promise = 3, pv_timeout = 4\<rparr>, nextHandle := 5\<rparr>,
      [SetTimeout 4 (ViewTimeoutCallback 3) (4 * moveTimeout), SendRequest (Subscribe 130 100)])"
proof -
  have n: "nextHandle client_closed = 3" by (simp add: client_closed_eq)
  have a: "ChessClient_moveView client_closed 130 100 =
     (Inr (nextHandle client_closed),
      client_closed\<lparr>pendingViewMove := Some \<lparr>pv_promise = nextHandle client_closed,
          pv_timeout = nextHandle client_closed + 1\<rparr>,
        nextHandle := nextHandle client_closed + 2\<rparr>,
      [SetTimeout (nextHandle client_closed + 1) (ViewTimeoutCallback (nextHandle client_closed)) (4 * moveTimeout),
       SendRequest (Subscribe 130 100)])"
    by (rule moveView_far)
       (simp_all add: client_closed_eq board_client1 chebyshev_def minCenterCoords_def
          maxCenterCoords_def boardSize_def totalSize_def)
  show ?thesis unfolding a n by simp
qed

lemma client_cleared_eq:
  "client_cleared = client_closed\<lparr>pendingViewMove := None, nextHandle := 5\<rparr>"
  by (simp add: client_cleared_def client_second_view_def moveView_closed viewSend_failed_def)

lemma moveView_cleared:
  "ChessClient_moveView client_cleared 140 100 =
     (Inr 5, client_cleared\<lparr>pendingViewMove := Some \<lparr>pv_promise = 5, pv_timeout = 6\<rparr>, nextHandle := 7\<rparr>,
      [SetTimeout 6 (ViewTimeoutCallback 5) (4 * moveTimeout), SendRequest (Subscribe 140 100)])"
proof -
  have n: "nextHandle client_cleared = 5" by (simp add: client_cleared_eq)
  have a: "ChessClient_moveView client_cleared 140 100 =
     (Inr (nextHandle client_cleared),
      client_cleared\<lparr>pendingViewMove := Some \<lparr>pv_promise = nextHandle client_cleared,
          pv_timeout = nextHandle client_cleared + 1\<rparr>,
        nextHandle := nextHandle client_cleared + 2\<rparr>,
      [SetTimeout (nextHandle client_cleared + 1) (ViewTimeoutCallback (nextHandle client_cleared)) (4 * moveTimeout),
       SendRequest (Subscribe 140 100)])"
    by (rule moveView_far)
       (simp_all add: client_cleared_eq client_closed_eq board_client1 chebyshev_def minCenterCoords_def
          maxCenterCoords_def boardSize_def totalSize_def)
  show ?thesis unfolding a n by simp
qed

lemma run_view_events:
  "fst (run client0 view_events) = client_cleared"
  "run_effects client0 view_events =
     run_effects client0 [Connect, SocketOpen 0, InitialStateMsg snapshot0 0]
     @ [SetTimeout 2 (ViewTimeoutCallback 1) (4 * moveTimeout), SendRequest (Subscribe 120 100),
        Log ''Websocket closed with code:'', ClearTimeout 2,
        Reject 1 (ChessError ''Connection closed''), ClearTimeout 0, SocketClose,
        SetTimeout 4 (ViewTimeoutCallback 3) (4 * moveTimeout), SendRequest (Subscribe 130 100),
        ClearTimeout 2, Reject 1 (ClientError ''Connection not open'')]"
proof -
  have f: "fst (run client0 [Connect, SocketOpen 0, InitialStateMsg snapshot0 0]) = client1"
    by (simp only: prefix_run fst_conv)
  have v: "view_events = [Connect, SocketOpen 0, InitialStateMsg snapshot0 0]
      @ [RequestView 120 100, Disconnect, RequestView 130 100,
         ViewSendFailed 1 2 (ClientError ''Connection not open'')]"
    by (simp add: view_events_def)
  have c: "fst (snd (disconnect client_viewing 0 0)) = client_closed"
    by (simp add: client_closed_def)
  have d: "fst (snd (ChessClient_moveView client_closed 130 100)) = client_second_view"
    by (simp add: client_second_view_def)
  have e: "fst (viewSend_failed client_second_view (Suc 0) 2 (ClientError ''Connection not open''))
      = client_cleared"
    by (simp add: client_cleared_def)
  have de: "snd (snd (disconnect client_viewing 0 0)) =
       [Log ''Websocket closed with code:'', ClearTimeout 2,
        Reject 1 (ChessError ''Connection closed''), ClearTimeout 0, SocketClose]"
    by (simp add: disconnect_viewing)
  show "fst (run client0 view_events) = client_cleared"
    unfolding v run_append f
    by (simp add: moveView_client1 c d e split: prod.splits)
  show "run_effects client0 view_events =
     run_effects client0 [Connect, SocketOpen 0, InitialStateMsg snapshot0 0]
     @ [SetTimeout 2 (ViewTimeoutCallback 1) (4 * moveTimeout), SendRequest (Subscribe 120 100),
        Log ''Websocket closed with code:'', ClearTimeout 2,
        Reject 1 (ChessError ''Connection closed''), ClearTimeout 0, SocketClose,
        SetTimeout 4 (ViewTimeoutCallback 3) (4 * moveTimeout), SendRequest (Subscribe 130 100),
        ClearTimeout 2, Reject 1 (ClientError ''Connection not open'')]"
    unfolding v run_effects_append f
    by (simp add: moveView_client1 c de moveView_closed d viewSend_failed_def)
qed

lemma requested_views_append: "requested_views (xs @ ys) = requested_views xs @ requested_views ys"
  by (induction xs rule: requested_views.induct) auto

lemma prefix_views:
  "requested_views (run_effects client0 [Connect, SocketOpen 0, InitialStateMsg snapshot0 0]) = []"
proof -
  have o: "fst (ws_on_open (snd (connect client0)) 0) = client_open"
    by (simp add: client_open_def)
  have b: "board client_open = new_Board"
    by (simp add: client_open_eq client0_def new_ChessClient_def)
  have e1: "snd (ws_on_open (snd (connect client0)) 0)
      = [Log ''Websocket opened.'', SetTimeout 0 PingCallback (getRetryTime 1200 (4000 / 2) False 0 0)]"
    by (simp add: client0_def connect_def increment_def new_ChessClient_def
      ChessClient_maxConnections_def ws_on_open_def schedulePing_def resetReconnecting_def Let_def)
  have e2: "snd (handle_initialState client_open snapshot0 0) = [Resolve 0]"
    by (simp add: handle_initialState_def b resetBoard_snapshot0)
  show ?thesis by (simp add: o e1 e2)
qed

text \<open>
  C7 fails on this run of the code. A view move is requested (promise 1) and, while its
  send waits, the client disconnects, which rejects it; a second view move is requested
  (promise 3); then the send of the first request fails, and the \<^verbatim>\<open>catch\<close> of the
  first request empties the slot, which holds the second. Now the slot is empty while
  the second request is not settled, and a third request is accepted (promise 5): two
  view moves are pending at once.
\<close>

theorem view_requests_overlap:
  "unsettled_views (run_effects client0 view_events) = [3]
   \<and> pendingViewMove (fst (run client0 view_events)) = None
   \<and> fst (ChessClient_moveView (fst (run client0 view_events)) 140 100) = Inr 5
   \<and> unsettled_views (run_effects client0 (view_events @ [RequestView 140 100])) = [3, 5]"
proof -
  have rq: "requested_views (run_effects client0 view_events) = [1, 3]"
    unfolding run_view_events(2) requested_views_append prefix_views by simp
  have st: "settled (run_effects client0 view_events) = [0, 1, 1]"
    unfolding run_view_events(2) settled_append prefix_effects by simp
  have a: "unsettled_views (run_effects client0 view_events) = [3]"
    unfolding unsettled_views_def rq st by simp
  have b: "pendingViewMove (fst (run client0 view_events)) = None"
    unfolding run_view_events(1) by (simp add: client_cleared_eq)
  have c: "fst (ChessClient_moveView (fst (run client0 view_events)) 140 100) = Inr 5"
    unfolding run_view_events(1) moveView_cleared by simp
  have e: "run_effects client0 (view_events @ [RequestView 140 100])
      = run_effects client0 view_events
        @ [SetTimeout 6 (ViewTimeoutCallback 5) (4 * moveTimeout), SendRequest (Subscribe 140 100)]"
    unfolding run_effects_append run_view_events(1) by (simp add: moveView_cleared)
  have d: "unsettled_views (run_effects client0 (view_events @ [RequestView 140 100])) = [3, 5]"
    unfolding unsettled_views_def e requested_views_append settled_append rq st by simp
  show ?thesis using a b c d by simp
qed


text \<open>
  C9. With no view move pending and centre coordinates in range, when the Chebyshev
  distance from the board's centre (an unset centre reads as 0) to the new centre is
  less than 12, \<open>moveView\<close> fails with \<open>Move distance d too short\<close>, where \<open>d\<close> is
  that distance; nothing is sent, and the client, with its empty view slot, is
  unchanged.
\<close>

theorem moveView_too_short:
  assumes "pendingViewMove s = None"
    and "minCenterCoords \<le> cX" "cX \<le> maxCenterCoords"
    and "minCenterCoords \<le> cY" "cY \<le> maxCenterCoords"
    and "chebyshev (cX - num (centerX (board s))) (cY - num (centerY (board s))) < 12"
  shows "ChessClient_moveView s cX cY =
     (Inl (ChessError (''Move distance ''
         @ show_int (chebyshev (cX - num (centerX (board s))) (cY - num (centerY (board s))))
         @ '' too short'')), s, [])
     \<and> pendingViewMove (fst (snd (ChessClient_moveView s cX cY))) = None"
  using assms
  by (simp add: ChessClient_moveView_def validateCenter_ok Board_distance_int minViewDist_def Let_def)

theorem moveView_too_short_witness:
  "ChessClient_moveView client1 105 111
    = (Inl (ChessError ''Move distance 11 too short''), client1, [])"
proof -
  have c: "chebyshev (105 - num (centerX (board client1))) (111 - num (centerY (board client1))) = 11"
    by (simp add: board_client1 chebyshev_def)
  have sh: "show_int 11 = ''11''"
    by (simp add: show_int_def show_nat.simps digit_char_def)
  show ?thesis
    using moveView_too_short[OF pending_client1(1), of 105 111]
    by (simp add: c sh minCenterCoords_def maxCenterCoords_def boardSize_def totalSize_def)
qed

subsection \<open>Sending with retry\<close>

lemma attemptSend_destroyed:
  "att_ready a = None \<Longrightarrow> att_destroyed a \<Longrightarrow> attemptSend a = Inl (ClientError ''Client destroyed'')"
  by (simp add: attemptSend_def)

lemma sendWithRetry_destroyed:
  assumes w: "\<And>k. att_ready (world k) = None \<and> att_destroyed (world k)"
  shows "retries \<le> maxRetry \<Longrightarrow>
     sendWithRetry world maxRetry retries = (Thrown (ClientError ''Client destroyed''), maxRetry + 1)"
proof (induction "maxRetry - retries" arbitrary: retries)
  case 0
  then have "retries = maxRetry" by simp
  then show ?case
    using w[of retries]
    by (subst sendWithRetry.simps) (simp add: attemptSend_destroyed)
next
  case (Suc n)
  then have lt: "retries < maxRetry" by simp
  have ih: "sendWithRetry world maxRetry (retries + 1)
            = (Thrown (ClientError ''Client destroyed''), maxRetry + 1)"
    using Suc.hyps(1)[of "retries + 1"] Suc.hyps(2) lt by simp
  show ?case
    using w[of retries] lt ih
    by (subst sendWithRetry.simps) (simp add: attemptSend_destroyed)
qed

text \<open>
  C10. With retry enabled, when every attempt meets a destroyed client (and so fails
  with \<open>Client destroyed\<close>), \<open>sendRequest\<close> does not return early: the messages of the
  two errors that \<open>_attemptSend\<close> throws, and that of a failed connection, do not
  contain \<open>destoyed\<close>, the send is attempted \<open>maxRetryCount + 1\<close> times, and the
  error \<open>Client destroyed\<close> is thrown.
\<close>

theorem sendRequest_destroyed:
  assumes "enableRetry retryDelay maxRetry"
    and "\<forall>k. att_ready (world k) = None \<and> att_destroyed (world k)"
  shows "\<not> js_includes (message (ClientError ''Client destroyed'')) ''destoyed''
       \<and> \<not> js_includes (message (ClientError ''Connection not open'')) ''destoyed''
       \<and> \<not> js_includes (message (ClientError ''Connection failed'')) ''destoyed''
       \<and> sendRequest world retryDelay maxRetry
           = (Thrown (ClientError ''Client destroyed''), maxRetry + 1)"
  using assms sendWithRetry_destroyed[of world 0 maxRetry]
  by (simp add: sendRequest_def)

theorem sendRequest_destroyed_witness:
  "enableRetry 1000 5
   \<and> sendRequest destroyed_world 1000 5 = (Thrown (ClientError ''Client destroyed''), 6)"
  using sendRequest_destroyed[of 1000 5 destroyed_world]
  by (simp add: enableRetry_def destroyed_world_def)

subsection \<open>Closing the connection\<close>








lemma rejectPendingRequests_frame:
  "rejectPendingRequests s = (s', es) \<Longrightarrow>
     autoReconnect s' = autoReconnect s \<and> destroyed s' = destroyed s \<and> reconnecting s' = reconnecting s
     \<and> reconnectAttempts s' = reconnectAttempts s \<and> maxRetryCount s' = maxRetryCount s
     \<and> (\<forall>h cb d. SetTimeout h cb d \<notin> set es)"
  by (auto simp: rejectPendingRequests_def Let_def reject_move_def split: option.splits)

lemma clear_timer_no_set: "SetTimeout h cb d \<notin> set (clear_timer t)"
  by (cases t) auto






subsection \<open>Reconnecting\<close>

lemma scheduleReconnect_under:
  assumes "\<not> reconnecting s" "\<not> destroyed s" "reconnectAttempts s + 1 \<le> maxRetryCount s"
  shows "scheduleReconnect s wasError r1 r2 =
     (s\<lparr>reconnectAttempts := reconnectAttempts s + 1, reconnectTimeout := Some (nextHandle s),
        nextHandle := nextHandle s + 1\<rparr>,
      [SetTimeout (nextHandle s) ReconnectCallback
         (getRetryTime (of_nat (reconnectAttempts s + 1) * reconnectDelay s / 2)
            (5 * defaultJitter s) wasError r1 r2)])"
  using assms by (simp add: scheduleReconnect_def Let_def)

lemma scheduleReconnect_over:
  assumes "reconnectAttempts s + 1 > maxRetryCount s"
    and "scheduleReconnect s wasError r1 r2 = (s', es)"
  shows "es = [] \<and> reconnectAttempts s' + 1 > maxRetryCount s'"
  using assms by (auto simp: scheduleReconnect_def Let_def split: if_splits)

lemma rejectPendingRequests_no_timer:
  "rejectPendingRequests s = (s', es) \<Longrightarrow> SetTimeout h cb d \<notin> set es"
  using rejectPendingRequests_frame by blast

lemma handleDisconnect_Inr:
  assumes "decrement (s\<lparr>connected := False\<rparr>) = Inr s2"
    and "rejectPendingRequests s2 = (s3, e3)"
  shows "handleDisconnect s code r1 r2 =
     (if autoReconnect (fst (cleanupSocket (fst (clearTimers s3)))) then
        (None, fst (scheduleReconnect (fst (cleanupSocket (fst (clearTimers s3)))) (code \<noteq> 1000) r1 r2),
         ([Log ''Websocket closed with code:''] @ e3 @ snd (clearTimers s3)
            @ snd (cleanupSocket (fst (clearTimers s3))))
         @ snd (scheduleReconnect (fst (cleanupSocket (fst (clearTimers s3)))) (code \<noteq> 1000) r1 r2))
      else
        (None, fst (cleanupSocket (fst (clearTimers s3))),
         [Log ''Websocket closed with code:''] @ e3 @ snd (clearTimers s3)
            @ snd (cleanupSocket (fst (clearTimers s3)))))"
  using assms by (simp add: handleDisconnect_def Let_def case_prod_beta)

lemma handleDisconnect_over:
  assumes over: "reconnectAttempts s + 1 > maxRetryCount s"
    and h: "handleDisconnect s code r1 r2 = (e, s', es)"
  shows "(\<forall>h d. SetTimeout h ReconnectCallback d \<notin> set es)
     \<and> reconnectAttempts s' + 1 > maxRetryCount s'"
proof (cases "decrement (s\<lparr>connected := False\<rparr>)")
  case (Inl err)
  then show ?thesis using h over by (auto simp: handleDisconnect_def Let_def)
next
  case (Inr s2)
  obtain s3 e3 where rej: "rejectPendingRequests s2 = (s3, e3)"
    by (cases "rejectPendingRequests s2") auto
  define s5 where "s5 = fst (cleanupSocket (fst (clearTimers s3)))"
  define es5 where "es5 = [Log ''Websocket closed with code:''] @ e3 @ snd (clearTimers s3)
      @ snd (cleanupSocket (fst (clearTimers s3)))"
  have a2: "reconnectAttempts s2 = reconnectAttempts s" "maxRetryCount s2 = maxRetryCount s"
    using Inr by (auto simp: decrement_def split: if_splits)
  have a5: "reconnectAttempts s5 = reconnectAttempts s" "maxRetryCount s5 = maxRetryCount s"
    using rejectPendingRequests_frame[OF rej] a2
    by (simp_all add: s5_def clearTimers_def cleanupSocket_def)
  have n5: "\<forall>h cb d. SetTimeout h cb d \<notin> set es5"
    using rejectPendingRequests_frame[OF rej]
    by (auto simp: es5_def clearTimers_def cleanupSocket_def clear_timer_no_set)
  obtain s6 e6 where sch: "scheduleReconnect s5 (code \<noteq> 1000) r1 r2 = (s6, e6)"
    by (cases "scheduleReconnect s5 (code \<noteq> 1000) r1 r2") auto
  have res: "(e, s', es) = (if autoReconnect s5 then (None, s6, es5 @ e6) else (None, s5, es5))"
    using h sch unfolding handleDisconnect_Inr[OF Inr rej] s5_def es5_def
    by (simp split: if_splits)
  from scheduleReconnect_over[OF _ sch] a5 over
  have o6: "e6 = []" "reconnectAttempts s6 + 1 > maxRetryCount s6" by auto
  show ?thesis
    using res n5 o6 a5 over by (auto split: if_splits)
qed

text \<open>
  C8, amended. On a close with a code other than 1000, when auto-reconnect is enabled,
  the client is not destroyed, no reconnection is in progress and the decrement of the
  connection count does not throw, then if the attempt count after incrementing is at
  most \<open>maxRetryCount\<close> a reconnect timer is armed. And whenever the attempt count
  after incrementing would exceed \<open>maxRetryCount\<close>, a close arms no reconnect timer
  and leaves the count above the ceiling, so that no later close arms one either.
\<close>

theorem reconnect_scheduling:
  "(autoReconnect s \<and> \<not> destroyed s \<and> \<not> reconnecting s
      \<and> (maxConnections s = None \<or> 0 < connections s) \<and> code \<noteq> 1000
      \<and> reconnectAttempts s + 1 \<le> maxRetryCount s
     \<longrightarrow> (\<exists>s' es h. handleDisconnect s code r1 r2 = (None, s', es)
            \<and> reconnectAttempts s' = reconnectAttempts s + 1
            \<and> reconnectTimeout s' = Some h
            \<and> SetTimeout h ReconnectCallback
                 (getRetryTime (of_nat (reconnectAttempts s + 1) * reconnectDelay s / 2)
                    (5 * defaultJitter s) True r1 r2) \<in> set es))
   \<and> (maxRetryCount s < reconnectAttempts s + 1
     \<longrightarrow> (\<forall>h d. SetTimeout h ReconnectCallback d \<notin> set (snd (snd (handleDisconnect s code r1 r2))))
         \<and> maxRetryCount (fst (snd (handleDisconnect s code r1 r2)))
             < reconnectAttempts (fst (snd (handleDisconnect s code r1 r2))) + 1)"
proof (intro conjI impI)
  assume a: "autoReconnect s \<and> \<not> destroyed s \<and> \<not> reconnecting s
      \<and> (maxConnections s = None \<or> 0 < connections s) \<and> code \<noteq> 1000
      \<and> reconnectAttempts s + 1 \<le> maxRetryCount s"
  have "\<exists>s2. decrement (s\<lparr>connected := False\<rparr>) = Inr s2 \<and> autoReconnect s2 \<and> \<not> destroyed s2
      \<and> \<not> reconnecting s2 \<and> reconnectAttempts s2 = reconnectAttempts s
      \<and> maxRetryCount s2 = maxRetryCount s \<and> reconnectDelay s2 = reconnectDelay s
      \<and> defaultJitter s2 = defaultJitter s"
    using a by (cases "maxConnections s = None") (auto simp: decrement_def)
  then obtain s2 where dec: "decrement (s\<lparr>connected := False\<rparr>) = Inr s2"
    and f2: "autoReconnect s2" "\<not> destroyed s2" "\<not> reconnecting s2"
      "reconnectAttempts s2 = reconnectAttempts s" "maxRetryCount s2 = maxRetryCount s"
      "reconnectDelay s2 = reconnectDelay s" "defaultJitter s2 = defaultJitter s"
    by blast
  obtain s3 e3 where rej: "rejectPendingRequests s2 = (s3, e3)"
    by (cases "rejectPendingRequests s2") auto
  define s5 where "s5 = fst (cleanupSocket (fst (clearTimers s3)))"
  define es5 where "es5 = [Log ''Websocket closed with code:''] @ e3 @ snd (clearTimers s3)
      @ snd (cleanupSocket (fst (clearTimers s3)))"
  have rd: "reconnectDelay s3 = reconnectDelay s2 \<and> defaultJitter s3 = defaultJitter s2"
    using rej by (auto simp: rejectPendingRequests_def Let_def split: option.splits)
  have f5: "autoReconnect s5" "\<not> destroyed s5" "\<not> reconnecting s5"
      "reconnectAttempts s5 = reconnectAttempts s" "maxRetryCount s5 = maxRetryCount s"
      "reconnectDelay s5 = reconnectDelay s" "defaultJitter s5 = defaultJitter s"
    using rejectPendingRequests_frame[OF rej] f2 rd
    by (simp_all add: s5_def clearTimers_def cleanupSocket_def)
  have u: "reconnectAttempts s5 + 1 \<le> maxRetryCount s5" using a f5 by simp
  have "handleDisconnect s code r1 r2 =
      (None, fst (scheduleReconnect s5 True r1 r2), es5 @ snd (scheduleReconnect s5 True r1 r2))"
    using a f5(1) unfolding handleDisconnect_Inr[OF dec rej] s5_def es5_def
    by simp
  then show "\<exists>s' es h. handleDisconnect s code r1 r2 = (None, s', es)
            \<and> reconnectAttempts s' = reconnectAttempts s + 1
            \<and> reconnectTimeout s' = Some h
            \<and> SetTimeout h ReconnectCallback
                 (getRetryTime (of_nat (reconnectAttempts s + 1) * reconnectDelay s / 2)
                    (5 * defaultJitter s) True r1 r2) \<in> set es"
    using scheduleReconnect_under[OF f5(3) f5(2) u, of True r1 r2] f5 by simp
next
  assume o: "maxRetryCount s < reconnectAttempts s + 1"
  obtain e s' es where h: "handleDisconnect s code r1 r2 = (e, s', es)"
    by (cases "handleDisconnect s code r1 r2") auto
  from handleDisconnect_over[OF _ h] o
  show "\<forall>h d. SetTimeout h ReconnectCallback d \<notin> set (snd (snd (handleDisconnect s code r1 r2)))"
    by (simp add: h)
  from handleDisconnect_over[OF _ h] o
  show "maxRetryCount (fst (snd (handleDisconnect s code r1 r2)))
             < reconnectAttempts (fst (snd (handleDisconnect s code r1 r2))) + 1"
    by (simp add: h)
qed

lemma client1_fields:
  "autoReconnect client1" "\<not> destroyed client1" "\<not> reconnecting client1"
  "connections client1 = 1" "maxConnections client1 = Some ChessClient_maxConnections"
  "reconnectAttempts client1 = 0" "maxRetryCount client1 = 5" "nextHandle client1 = 1"
  "ws client1" "reconnectTimeout client1 = None" "pingInterval client1 = Some 0"
  "pongTimeout client1 = None" "reconnectDelay client1 = 15000" "defaultJitter client1 = 4000"
  "connected client1"
  by (simp_all add: client1_eq client_open_eq client0_def new_ChessClient_def)

lemma client_reinit_eq:
  "client_reinit = client1\<lparr>connections := 2, connected := False, reconnecting := True,
     pongTimeout := Some 1, nextHandle := 2\<rparr>"
  by (simp add: client_reinit_def init_client_def resetState_def resetReconnecting_def connect_def
      increment_def pingTimer_fired_def Let_def client1_fields ChessClient_maxConnections_def)

text \<open>
  C8, as stated, fails. After \<open>init()\<close> is called again while a pong is awaited, the
  pong timeout closes the connection while \<open>_reconnecting\<close> is set, and
  \<open>_scheduleReconnect\<close> returns at once; and at a connection count of 0 the socket's
  error listener throws before \<open>_scheduleReconnect\<close> is reached. In both, auto-reconnect
  is enabled, the client is not destroyed and the attempt count is under the ceiling,
  and no reconnect timer is armed.
\<close>

theorem reconnect_not_scheduled:
  "autoReconnect client_reinit \<and> \<not> destroyed client_reinit
   \<and> reconnectAttempts client_reinit + 1 \<le> maxRetryCount client_reinit
   \<and> pongTimeout_fired client_reinit (1 / 2) 0
       = (None,
          client_reinit\<lparr>connections := 1, ws := False, pingInterval := None, pongTimeout := None\<rparr>,
          [Log ''Websocket closed with code:'', ClearTimeout 0, ClearTimeout 1, SocketClose])
   \<and> autoReconnect client_miscounted \<and> \<not> destroyed client_miscounted
   \<and> reconnectAttempts client_miscounted + 1 \<le> maxRetryCount client_miscounted
   \<and> ws_on_error client_miscounted (1 / 2) 0
       = (Some (ClientError ''Connection count cannot be lower than 0''),
          client_miscounted\<lparr>connected := False\<rparr>, [Log ''ERROR: Websocket error:''])"
proof -
  have a: "pongTimeout_fired client_reinit (1 / 2) 0
       = (None,
          client_reinit\<lparr>connections := 1, ws := False, pingInterval := None, pongTimeout := None\<rparr>,
          [Log ''Websocket closed with code:'', ClearTimeout 0, ClearTimeout 1, SocketClose])"
    by (simp add: pongTimeout_fired_def handleDisconnect_def decrement_def
        rejectPendingRequests_def clearTimers_def cleanupSocket_def scheduleReconnect_def Let_def
        client_reinit_eq client1_fields pending_client1)
  have b: "ws_on_error client_miscounted (1 / 2) 0
       = (Some (ClientError ''Connection count cannot be lower than 0''),
          client_miscounted\<lparr>connected := False\<rparr>, [Log ''ERROR: Websocket error:''])"
    by (simp add: ws_on_error_def onWebsocketError_def handleDisconnect_def decrement_def
        resetReconnecting_def Let_def client_miscounted_def client1_fields)
  show ?thesis
    using a b by (simp add: client_reinit_eq client_miscounted_def client1_fields)
qed

theorem reconnect_scheduling_witness:
  "(\<exists>s' es h. handleDisconnect client1 1006 (1 / 2) 0 = (None, s', es)
       \<and> reconnectAttempts s' = 1 \<and> reconnectTimeout s' = Some h
       \<and> SetTimeout h ReconnectCallback 7500 \<in> set es)
   \<and> (\<forall>h d. SetTimeout h ReconnectCallback d
         \<notin> set (snd (snd (handleDisconnect client_exhausted 1006 (1 / 2) 0))))"
proof -
  have g: "getRetryTime (of_nat (reconnectAttempts client1 + 1) * reconnectDelay client1 / 2)
             (5 * defaultJitter client1) True (1 / 2) 0 = 7500"
    by (simp add: getRetryTime_def client1_fields)
  have e: "maxRetryCount client_exhausted < reconnectAttempts client_exhausted + 1"
    by (simp add: client_exhausted_def client1_fields)
  show ?thesis
    using reconnect_scheduling[of client1 1006 "1 / 2" 0]
      reconnect_scheduling[of client_exhausted 1006 "1 / 2" 0] e
    unfolding g by (simp add: client1_fields)
qed

subsection \<open>The rate limiter\<close>





















subsection \<open>Unique ids\<close>

lemma unique_by_delete: "unique_by f m \<Longrightarrow> unique_by f (Map_delete k m)"
  unfolding unique_by_def Map_get_Map_delete by (auto split: if_splits)

lemma unique_by_set: "unique_by f m \<Longrightarrow> only_at f m (f p) k \<Longrightarrow> unique_by f (Map_set k p m)"
  unfolding unique_by_def only_at_def Map_get_Map_set by (auto split: if_splits)

lemma ids_unique_delete: "ids_unique b \<Longrightarrow> ids_unique (Board_delete b x y v)"
  by (simp add: ids_unique_def Board_delete_def unique_by_delete)

lemma ids_unique_set:
  "ids_unique b \<Longrightarrow> id_only_at b (piece_id p) (getCoordsKey x y) \<Longrightarrow> ids_unique (Board_set b x y p v)"
  by (simp add: ids_unique_def id_only_at_def Board_set_def unique_by_set)

lemma ids_unique_set_data:
  "ids_unique b \<Longrightarrow> id_only_at b (data_id d) (getCoordsKey x y) \<Longrightarrow> ids_unique (Board_set_data b x y d v)"
proof -
  have i: "piece_id (new_Piece x y d) = data_id d" by (simp add: new_Piece_def)
  have e: "Board_set_data b x y d v = Board_set b x y (new_Piece x y d) v"
    by (simp add: Board_set_data_def Board_set_def)
  show "ids_unique b \<Longrightarrow> id_only_at b (data_id d) (getCoordsKey x y) \<Longrightarrow> ids_unique (Board_set_data b x y d v)"
    unfolding e using ids_unique_set[of b "new_Piece x y d" x y v] by (simp add: i)
qed

lemma ids_unique_movePiece:
  assumes u: "ids_unique b"
    and o: "id_only_at b (piece_id p) (getCoordsKey (piece_x p) (piece_y p))"
    and m: "Board_movePiece b (Some p) toX toY ty capture validate = Inr (b', p')"
  shows "ids_unique b'"
proof -
  have inb: "validate \<Longrightarrow> Board_pieceInBounds b (piece_x p) (piece_y p) \<and> Board_pieceInBounds b toX toY"
    using m by (auto simp: Board_movePiece_def validatePieceMove_Inr split: sum.splits if_splits)
  define b1 where "b1 = b\<lparr>store := Map_delete (getCoordsKey (piece_x p) (piece_y p)) (store b)\<rparr>"
  have d: "Board_delete b (piece_x p) (piece_y p) validate = b1"
    using inb by (auto simp: Board_delete_def b1_def)
  have u1: "ids_unique b1" using ids_unique_delete[OF u, of "piece_x p" "piece_y p" False]
    by (simp add: Board_delete_def b1_def)
  have none: "\<And>k q. Map_get (store b1) k = Some q \<Longrightarrow> piece_id q \<noteq> piece_id p"
  proof
    fix k q assume g: "Map_get (store b1) k = Some q" and i: "piece_id q = piece_id p"
    from g have "k \<noteq> getCoordsKey (piece_x p) (piece_y p) \<and> Map_get (store b) k = Some q"
      by (simp add: b1_def Map_get_Map_delete split: if_splits)
    then show False using o i unfolding id_only_at_def only_at_def by blast
  qed
  have inb1: "Board_pieceInBounds b1 toX toY = Board_pieceInBounds b toX toY"
    by (simp add: b1_def Board_pieceInBounds_def Board__pieceInBounds_def)
  have idp: "piece_id p' = piece_id p"
    using m by (auto simp: Board_movePiece_def Let_def Piece_capture_def Piece_move_def
        split: sum.splits if_splits)
  have b': "b' = Board_set b1 toX toY p' False"
    using m inb inb1 d
    by (auto simp: Board_movePiece_def Let_def Board_set_def split: sum.splits if_splits)
  have "id_only_at b1 (piece_id p') (getCoordsKey toX toY)"
    unfolding id_only_at_def only_at_def idp using none by blast
  then show ?thesis unfolding b' using u1 by (rule ids_unique_set[rotated])
qed

lemma ids_unique_capturePiece:
  "ids_unique b \<Longrightarrow> Board_capturePiece b piece v = Inr (b', r) \<Longrightarrow> ids_unique b'"
  by (auto simp: Board_capturePiece_def ids_unique_delete split: option.splits if_splits)

lemma ids_unique_captureOnPosition:
  "ids_unique b \<Longrightarrow> Board_captureOnPosition b x y v = Inr (b', r) \<Longrightarrow> ids_unique b'"
  by (auto simp: Board_captureOnPosition_def Let_def dest: ids_unique_capturePiece split: if_splits)

lemma ids_unique_captureWithId:
  "ids_unique b \<Longrightarrow> Board_captureWithId b i v = Inr (b', r) \<Longrightarrow> ids_unique b'"
  by (auto simp: Board_captureWithId_def Let_def dest: ids_unique_capturePiece split: if_splits)

lemma ids_unique_capture_ids: "ids_unique b \<Longrightarrow> ids_unique (capture_ids b ids)"
  unfolding capture_ids_def
proof (induction ids arbitrary: b)
  case Nil
  then show ?case by simp
next
  case (Cons i ids)
  have "ids_unique (case Board_captureWithId b i False of Inl x \<Rightarrow> b | Inr (bd', x) \<Rightarrow> bd')"
    using Cons.prems ids_unique_captureWithId[of b i False]
    by (auto split: sum.splits)
  then show ?case using Cons.IH by simp
qed

lemma Map_get_Map_set_cases:
  "Map_get (Map_set k p m) k' = Some q \<Longrightarrow> q = p \<or> Map_get m k' = Some q"
  by (simp add: Map_get_Map_set split: if_splits)

lemma has_id_set_data:
  assumes "has_id (Board_set_data b x y d False) i"
  shows "i = data_id d \<or> has_id b i"
proof -
  from assms obtain k q
    where q: "Map_get (Map_set (getCoordsKey x y) (new_Piece x y d) (store b)) k = Some q"
      and i: "piece_id q = i"
    by (auto simp: has_id_def Board_set_data_def)
  from Map_get_Map_set_cases[OF q] show ?thesis
  proof
    assume "q = new_Piece x y d"
    then show ?thesis using i by (simp add: new_Piece_def)
  next
    assume "Map_get (store b) k = Some q"
    then have "has_id b i" unfolding has_id_def using i by blast
    then show ?thesis by simp
  qed
qed

lemma ids_unique_fold_set:
  assumes "ids_unique b"
    and "distinct (map (\<lambda>(dx, dy, d). data_id d) ps)"
    and "\<forall>i \<in> set (map (\<lambda>(dx, dy, d). data_id d) ps). \<not> has_id b i"
  shows "ids_unique (fold (\<lambda>(dx, dy, piece) bd. Board_set_data bd (cx + dx) (cy + dy) piece False) ps b)"
  using assms
proof (induction ps arbitrary: b)
  case Nil
  then show ?case by simp
next
  case (Cons a ps)
  obtain dx dy d where a: "a = (dx, dy, d)" by (cases a) auto
  define b1 where "b1 = Board_set_data b (cx + dx) (cy + dy) d False"
  define rest where "rest = map (\<lambda>(dx, dy, d). data_id d) ps"
  have p2: "data_id d \<notin> set rest" "distinct rest"
    using Cons.prems(2) by (simp_all add: a rest_def)
  have p3: "\<not> has_id b (data_id d)" "\<forall>i \<in> set rest. \<not> has_id b i"
    using Cons.prems(3) by (simp_all add: a rest_def)
  have "id_only_at b (data_id d) (getCoordsKey (cx + dx) (cy + dy))"
    unfolding id_only_at_def only_at_def using p3(1) unfolding has_id_def by blast
  then have u1: "ids_unique b1" unfolding b1_def using Cons.prems(1) by (intro ids_unique_set_data)
  have "\<forall>i \<in> set rest. \<not> has_id b1 i"
  proof
    fix i assume r: "i \<in> set rest"
    show "\<not> has_id b1 i"
    proof
      assume "has_id b1 i"
      then have "i = data_id d \<or> has_id b i" unfolding b1_def by (rule has_id_set_data)
      then show False using r p2(1) p3(2) by blast
    qed
  qed
  then have disj: "\<forall>i \<in> set (map (\<lambda>(dx, dy, d). data_id d) ps). \<not> has_id b1 i"
    by (simp add: rest_def)
  have dist: "distinct (map (\<lambda>(dx, dy, d). data_id d) ps)" using p2(2) by (simp add: rest_def)
  show ?case using Cons.IH[OF u1 dist disj] by (simp add: a b1_def)
qed

lemma ids_unique_empty: "store b = [] \<Longrightarrow> ids_unique b"
  by (simp add: ids_unique_def unique_by_def)

lemma ids_unique_resetBoard:
  assumes "distinct (snapshot_ids snap)"
  shows "ids_unique (fst (resetBoard b snap))"
proof -
  have c: "store (Board_clear b) = []" by (simp add: Board_clear_def Board__initCoords_def)
  have sx: "\<And>b v b'. Board_set_centerX b v = Inr b' \<Longrightarrow> store b' = store b"
    by (auto simp: Board_set_centerX_def Board__setCoords_def split: sum.splits)
  have sy: "\<And>b v b'. Board_set_centerY b v = Inr b' \<Longrightarrow> store b' = store b"
    by (auto simp: Board_set_centerY_def Board__setCoords_def split: sum.splits)
  show ?thesis
  proof (cases "Board_set_centerX (Board_clear b) (xCoord snap)")
    case (Inl e)
    then show ?thesis using c by (simp add: resetBoard_def Let_def ids_unique_empty)
  next
    case (Inr b2)
    note b2 = this
    show ?thesis
    proof (cases "Board_set_centerY b2 (yCoord snap)")
      case (Inl e)
      then show ?thesis using b2 c sx[OF b2] by (simp add: resetBoard_def Let_def ids_unique_empty)
    next
      case (Inr b3)
      have e: "store b3 = []" using sy[OF Inr] sx[OF b2] c by simp
      have "\<forall>i. \<not> has_id b3 i" using e by (simp add: has_id_def)
      then have "ids_unique (fold (\<lambda>(dx, dy, piece) bd.
                     Board_set_data bd (xCoord snap + dx) (yCoord snap + dy) piece False)
                   (pieces snap) b3)"
        using assms ids_unique_empty[OF e]
        by (intro ids_unique_fold_set) (auto simp: snapshot_ids_def)
      then show ?thesis using b2 Inr by (simp add: resetBoard_def Let_def)
    qed
  qed
qed

lemma board_handle_snapshot: "board (fst (handle_snapshot s snap)) = fst (resetBoard (board s) snap)"
  by (auto simp: handle_snapshot_def split: prod.splits option.splits)

lemma board_handle_initialState:
  "board (fst (handle_initialState s snap r)) = fst (resetBoard (board s) snap)"
  by (auto simp: handle_initialState_def split: prod.splits option.splits)

text \<open>
  C5, amended. If no two coordinate keys hold pieces with the same id, then none do
  after \<open>delete\<close>, \<open>capturePiece\<close>, \<open>captureOnPosition\<close>, \<open>captureWithId\<close> and
  the bulk-capture handler; after \<open>set\<close> of a piece whose id no other key holds;
  and after \<open>movePiece\<close> of a piece whose id only the key of its own coordinates
  holds. After a snapshot, initial or periodic, whose pieces have distinct ids, no two
  keys hold the same id, whatever the board was.
\<close>

theorem ids_stay_unique:
  "(ids_unique b \<longrightarrow> ids_unique (Board_delete b x y v))
   \<and> (ids_unique b \<and> id_only_at b (piece_id p) (getCoordsKey x y)
        \<longrightarrow> ids_unique (Board_set b x y p v))
   \<and> (ids_unique b \<and> id_only_at b (piece_id p) (getCoordsKey (piece_x p) (piece_y p))
        \<and> Board_movePiece b (Some p) toX toY ty capture validate = Inr (b1, p1)
        \<longrightarrow> ids_unique b1)
   \<and> (ids_unique b \<and> Board_capturePiece b piece v = Inr (b2, r2) \<longrightarrow> ids_unique b2)
   \<and> (ids_unique b \<and> Board_captureOnPosition b x y v = Inr (b3, r3) \<longrightarrow> ids_unique b3)
   \<and> (ids_unique b \<and> Board_captureWithId b i v = Inr (b4, r4) \<longrightarrow> ids_unique b4)
   \<and> (ids_unique (board s) \<longrightarrow> ids_unique (board (handle_bulkCapture s ids)))
   \<and> (distinct (snapshot_ids snap)
        \<longrightarrow> ids_unique (board (fst (handle_snapshot s snap)))
          \<and> ids_unique (board (fst (handle_initialState s snap r))))"
proof (intro conjI impI)
  show "ids_unique b \<Longrightarrow> ids_unique (Board_delete b x y v)"
    by (rule ids_unique_delete)
  show "ids_unique b \<and> id_only_at b (piece_id p) (getCoordsKey x y) \<Longrightarrow> ids_unique (Board_set b x y p v)"
    using ids_unique_set by blast
  show "ids_unique b \<and> id_only_at b (piece_id p) (getCoordsKey (piece_x p) (piece_y p))
        \<and> Board_movePiece b (Some p) toX toY ty capture validate = Inr (b1, p1) \<Longrightarrow> ids_unique b1"
    using ids_unique_movePiece by blast
  show "ids_unique b \<and> Board_capturePiece b piece v = Inr (b2, r2) \<Longrightarrow> ids_unique b2"
    using ids_unique_capturePiece by blast
  show "ids_unique b \<and> Board_captureOnPosition b x y v = Inr (b3, r3) \<Longrightarrow> ids_unique b3"
    using ids_unique_captureOnPosition by blast
  show "ids_unique b \<and> Board_captureWithId b i v = Inr (b4, r4) \<Longrightarrow> ids_unique b4"
    using ids_unique_captureWithId by blast
  show "ids_unique (board s) \<Longrightarrow> ids_unique (board (handle_bulkCapture s ids))"
    by (simp add: handle_bulkCapture_def ids_unique_capture_ids)
  show "distinct (snapshot_ids snap) \<Longrightarrow> ids_unique (board (fst (handle_snapshot s snap)))"
    by (simp add: board_handle_snapshot ids_unique_resetBoard)
  show "distinct (snapshot_ids snap) \<Longrightarrow> ids_unique (board (fst (handle_initialState s snap r)))"
    by (simp add: board_handle_initialState ids_unique_resetBoard)
qed

lemma ids_unique_client1: "ids_unique (board client1)"
  by (auto simp: ids_unique_def unique_by_def board_client1 split: if_splits)

lemma id_only_at_client1:
  "id_only_at (board client1) (piece_id knight7) (getCoordsKey (piece_x knight7) (piece_y knight7))"
  by (auto simp: id_only_at_def only_at_def board_client1 getCoordsKey_def knight7_def split: if_splits)

text \<open>
  C5, as stated, fails: \<open>set\<close> stores what it is given, and the handler of moves
  and captures sets a moved piece at its new coordinates without removing it from the
  old ones. After either, the knight's id 7 is held at (100, 100) and at (101, 102).
\<close>

theorem ids_not_unique:
  "ids_unique (board client1)
   \<and> Board_get (Board_set (board client1) 101 102 (Piece_move knight7 101 102) True) 100 100 True
       = Some knight7
   \<and> Board_get (Board_set (board client1) 101 102 (Piece_move knight7 101 102) True) 101 102 True
       = Some (Piece_move knight7 101 102)
   \<and> piece_id (Piece_move knight7 101 102) = piece_id knight7
   \<and> \<not> ids_unique (Board_set (board client1) 101 102 (Piece_move knight7 101 102) True)
   \<and> Board_get (board (handle_movesAndCaptures client1 [(101, 102, knight7_data)] [])) 100 100 True
       = Some knight7
   \<and> Board_get (board (handle_movesAndCaptures client1 [(101, 102, knight7_data)] [])) 101 102 True
       = Some (new_Piece 101 102 knight7_data)
   \<and> piece_id (new_Piece 101 102 knight7_data) = piece_id knight7
   \<and> \<not> ids_unique (board (handle_movesAndCaptures client1 [(101, 102, knight7_data)] []))"
proof -
  define bs where "bs = Board_set (board client1) 101 102 (Piece_move knight7 101 102) True"
  define bm where "bm = board (handle_movesAndCaptures client1 [(101, 102, knight7_data)] [])"
  have s1: "Map_get (store bs) (100, 100) = Some knight7"
    "Map_get (store bs) (101, 102) = Some (Piece_move knight7 101 102)"
    by (simp_all add: bs_def board_client1 board_defs)
  have m1: "Map_get (store bm) (100, 100) = Some knight7"
    "Map_get (store bm) (101, 102) = Some (new_Piece 101 102 knight7_data)"
    by (simp_all add: bm_def handle_movesAndCaptures_def capture_ids_def set_moves_def
        board_client1 board_defs)
  have i: "piece_id (Piece_move knight7 101 102) = piece_id knight7"
    "piece_id (new_Piece 101 102 knight7_data) = piece_id knight7"
    by (simp_all add: Piece_move_def new_Piece_def knight7_data_def knight7_def)
  have ns: "\<not> ids_unique bs"
  proof
    assume "ids_unique bs"
    then have "(100 :: int, 100 :: int) = (101, 102)"
      unfolding ids_unique_def unique_by_def using s1 i(1) by metis
    then show False by simp
  qed
  have nm: "\<not> ids_unique bm"
  proof
    assume "ids_unique bm"
    then have "(100 :: int, 100 :: int) = (101, 102)"
      unfolding ids_unique_def unique_by_def using m1 i(2) by metis
    then show False by simp
  qed
  have gs: "Board_get bs 100 100 True = Some knight7"
    "Board_get bs 101 102 True = Some (Piece_move knight7 101 102)"
    using s1 by (simp_all add: Board_get_def getCoordsKey_def bs_def board_client1
        Board_set_def Board_pieceInBounds_def Board__pieceInBounds_def static_pieceInBounds_def
        minPieceCoords_def maxPieceCoords_def totalSize_def)
  have gm: "Board_get bm 100 100 True = Some knight7"
    "Board_get bm 101 102 True = Some (new_Piece 101 102 knight7_data)"
    using m1 by (simp_all add: Board_get_def getCoordsKey_def bm_def handle_movesAndCaptures_def
        capture_ids_def set_moves_def board_client1 Board_set_data_def
        Board_pieceInBounds_def Board__pieceInBounds_def static_pieceInBounds_def
        minPieceCoords_def maxPieceCoords_def totalSize_def)
  show ?thesis
    using ids_unique_client1 gs gm i ns nm unfolding bs_def bm_def by simp
qed

theorem ids_stay_unique_witness:
  "ids_unique (board client1)
   \<and> id_only_at (board client1) (piece_id knight7) (getCoordsKey (piece_x knight7) (piece_y knight7))
   \<and> ids_unique (Board_delete (board client1) 100 100 True)
   \<and> ids_unique (Board_set (board client1) 100 100 knight7 True)
   \<and> (\<exists>b1 p1. Board_movePiece (board client1) (Some knight7) 101 102 MOVE_TYPE_NORMAL False True
                  = Inr (b1, p1) \<and> ids_unique b1)
   \<and> (\<exists>b2 r2. Board_capturePiece (board client1) (Some knight7) True = Inr (b2, r2)
                  \<and> ids_unique b2)
   \<and> (\<exists>b3 r3. Board_captureOnPosition (board client1) 100 100 True = Inr (b3, r3)
                  \<and> ids_unique b3)
   \<and> (\<exists>b4 r4. Board_captureWithId (board client1) 7 True = Inr (b4, r4) \<and> ids_unique b4)
   \<and> ids_unique (board (handle_bulkCapture client1 [7]))
   \<and> distinct (snapshot_ids snapshot0)
   \<and> ids_unique (board (fst (handle_snapshot client1 snapshot0)))
   \<and> ids_unique (board (fst (handle_initialState client1 snapshot0 0)))"
proof -
  have k: "piece_x knight7 = 100" "piece_y knight7 = 100" "piece_id knight7 = 7"
    by (simp_all add: knight7_def)
  obtain b1 p1 where m: "Board_movePiece (board client1) (Some knight7) 101 102 MOVE_TYPE_NORMAL False True
                  = Inr (b1, p1)"
    by (simp add: Board_movePiece_def knight_valid Let_def)
  obtain b2 r2 where c2: "Board_capturePiece (board client1) (Some knight7) True = Inr (b2, r2)"
    by (simp add: Board_capturePiece_def)
  have g: "Board_get (board client1) 100 100 True = Some knight7"
    "Board_getById (board client1) 7 = Some knight7"
    by (simp_all add: board_client1 board_defs Board_getById_def k)
  obtain b3 r3 where c3: "Board_captureOnPosition (board client1) 100 100 True = Inr (b3, r3)"
    by (simp add: Board_captureOnPosition_def g Board_capturePiece_def)
  obtain b4 r4 where c4: "Board_captureWithId (board client1) 7 True = Inr (b4, r4)"
    by (simp add: Board_captureWithId_def g Board_capturePiece_def)
  have d: "distinct (snapshot_ids snapshot0)"
    by (simp add: snapshot_ids_def snapshot0_def)
  have o: "id_only_at (board client1) (piece_id knight7) (getCoordsKey 100 100)"
    using id_only_at_client1 by (simp add: k)
  show ?thesis
    using ids_stay_unique[of "board client1" 100 100 True knight7 101 102 MOVE_TYPE_NORMAL False True
        b1 p1 "Some knight7" b2 r2 b3 r3 7 b4 r4 client1 "[7]" snapshot0 0]
      ids_unique_client1 id_only_at_client1 o m c2 c3 c4 d
    by auto
qed

end
